theory Spec2Isabelle
  imports Main
begin

section \<open>JavaScript values used by dns.js\<close>

text \<open>
  The strings of dns.js are binary strings: every character received comes from
  \<open>String.fromCharCode(instream.read8())\<close> and every character sent goes through the
  byte-oriented output stream. A character is therefore modelled as an 8-bit \<open>char\<close> and
  a message as a \<open>string\<close>; \<open>String.fromCharCode n\<close> is \<open>char_of n\<close>.

  A JavaScript number is an integer or NaN: reading a string out of range gives NaN, and
  NaN is absorbing for \<open>+\<close> and \<open>-\<close>, false in every comparison and 0 wherever an integer
  is required (string positions, bit operations).
\<close>

datatype jsnum = Num int | NaN

fun js_add :: "jsnum \<Rightarrow> jsnum \<Rightarrow> jsnum" where
  "js_add (Num a) (Num b) = Num (a + b)"
| "js_add _ _ = NaN"

fun js_sub :: "jsnum \<Rightarrow> jsnum \<Rightarrow> jsnum" where
  "js_sub (Num a) (Num b) = Num (a - b)"
| "js_sub _ _ = NaN"

fun js_gt :: "jsnum \<Rightarrow> jsnum \<Rightarrow> bool" where
  "js_gt (Num a) (Num b) = (a > b)"
| "js_gt _ _ = False"

fun js_ge :: "jsnum \<Rightarrow> jsnum \<Rightarrow> bool" where
  "js_ge (Num a) (Num b) = (a \<ge> b)"
| "js_ge _ _ = False"

text \<open>ToIntegerOrInfinity of ECMAScript: NaN becomes 0.\<close>

fun ToInteger :: "jsnum \<Rightarrow> int" where
  "ToInteger (Num i) = i"
| "ToInteger NaN = 0"

text \<open>
  The bit operators \<open>>>\<close>, \<open><<\<close> and \<open>&\<close> on their 32-bit integer operands. dns.js applies
  them to character codes and to message lengths only, which never leave the 32-bit range.
\<close>

definition js_shr :: "jsnum \<Rightarrow> nat \<Rightarrow> jsnum" where
  "js_shr x k = Num (ToInteger x div 2 ^ k)"

definition js_shl :: "jsnum \<Rightarrow> nat \<Rightarrow> jsnum" where
  "js_shl x k = Num (ToInteger x * 2 ^ k)"

definition js_and63 :: "jsnum \<Rightarrow> jsnum" where
  "js_and63 x = Num (ToInteger x mod 64)"

text \<open>\<open>s.charCodeAt(pos)\<close>: NaN out of range.\<close>

definition charCodeAt :: "string \<Rightarrow> jsnum \<Rightarrow> jsnum" where
  "charCodeAt s pos =
     (let p = ToInteger pos
      in if 0 \<le> p \<and> p < int (length s) then Num (of_char (s ! nat p)) else NaN)"

text \<open>\<open>s.substr(start, len)\<close>: a negative start counts from the end, the result is
  clipped to the string.\<close>

definition substr :: "string \<Rightarrow> jsnum \<Rightarrow> jsnum \<Rightarrow> string" where
  "substr s start len =
     (let st = ToInteger start;
          st' = (if st < 0 then max (int (length s) + st) 0 else st)
      in take (nat (ToInteger len)) (drop (nat st') s))"

text \<open>Number to string conversion, as \<open>+\<close> does it with a string operand.\<close>

fun show_nat :: "nat \<Rightarrow> string" where
  "show_nat n =
     (if n < 10 then [char_of (48 + n)] else show_nat (n div 10) @ [char_of (48 + n mod 10)])"

declare show_nat.simps [simp del]

fun js_toString :: "jsnum \<Rightarrow> string" where
  "js_toString NaN = ''NaN''"
| "js_toString (Num i) = (if i < 0 then CHR ''-'' # show_nat (nat (- i)) else show_nat (nat i))"

text \<open>\<open>s.split(".")\<close>: the separator never appears in a part, and the empty string gives
  one empty part.\<close>

fun js_split :: "char \<Rightarrow> string \<Rightarrow> string list" where
  "js_split sep [] = [[]]"
| "js_split sep (c # cs) =
     (if c = sep then [] # js_split sep cs
      else (case js_split sep cs of [] \<Rightarrow> [[c]] | p # ps \<Rightarrow> (c # p) # ps))"

section \<open>Words and octets (dns.js 749-777)\<close>

definition DNS_strToWord :: "string \<Rightarrow> jsnum" where
  "DNS_strToWord str = js_add (charCodeAt str (Num 1)) (js_shl (charCodeAt str (Num 0)) 8)"

definition DNS_strToOctet :: "string \<Rightarrow> jsnum" where
  "DNS_strToOctet str = charCodeAt str (Num 0)"

definition DNS_octetToStr :: "nat \<Rightarrow> string" where
  "DNS_octetToStr octet = [char_of octet]"

definition DNS_wordToStr :: "nat \<Rightarrow> string" where
  "DNS_wordToStr word = DNS_octetToStr ((word div 2 ^ 8) mod 256) @ DNS_octetToStr (word mod 256)"

section \<open>Name decoding (dns.js 561-590)\<close>

text \<open>
  \<open>DNS_readDomain(ctx)\<close> reads \<open>ctx.str\<close> from \<open>ctx.idx\<close> and moves \<open>ctx.idx\<close>; the model
  takes the string and the index and returns the name with the new index.

  The \<open>while (ctr-- > 0)\<close> loop is \<open>readDomain_while\<close>, by recursion on the iterations that
  remain. A pointer makes \<open>DNS_readDomain\<close> call itself on a fresh context, with a fresh
  counter; nothing bounds the depth of these calls, so the model gives the call stack a
  depth \<open>stack\<close> and returns \<open>None\<close> when a further call would exceed it.
\<close>

fun readDomain_while ::
    "nat \<Rightarrow> nat \<Rightarrow> string \<Rightarrow> jsnum \<Rightarrow> string \<Rightarrow> (string \<times> jsnum) option" where
  "readDomain_while stack 0 str idx domainname = Some (domainname, idx)"
| "readDomain_while stack (Suc ctr) str idx domainname =
     (let l = charCodeAt str idx; idx1 = js_add idx (Num 1)
      in if l = Num 0 then Some (domainname, idx1)
         else let domainname1 = (if domainname \<noteq> [] then domainname @ ''.'' else domainname)
              in if js_shr l 6 = Num 3
                 then (let ptr = js_add (js_shl (js_and63 l) 8) (charCodeAt str idx1);
                           idx2 = js_add idx1 (Num 1)
                       in case stack of
                            0 \<Rightarrow> None
                          | Suc stack' \<Rightarrow>
                              (case readDomain_while stack' 20 str ptr [] of
                                 None \<Rightarrow> None
                               | Some (name2, _) \<Rightarrow> Some (domainname1 @ name2, idx2)))
                 else readDomain_while stack ctr str (js_add idx1 l)
                        (domainname1 @ substr str idx1 l))"

definition DNS_readDomain :: "nat \<Rightarrow> string \<Rightarrow> jsnum \<Rightarrow> (string \<times> jsnum) option" where
  "DNS_readDomain stack str idx = readDomain_while stack 20 str idx []"

section \<open>Resource records (dns.js 592-643)\<close>

text \<open>
  \<open>rec.type\<close> is read as a number and overwritten by the type's name when the type is
  known. \<open>rec.rddata\<close> is a string, or for MX an object with \<open>preference\<close> and \<open>host\<close>;
  the MX object is created without an \<open>address\<close> property, so reading it gives
  \<open>undefined\<close>. The fields of \<open>rec\<close> are \<open>rec_dom\<close>, \<open>rec_type\<close> and so on.
\<close>

datatype rectype = TypeNum jsnum | TypeStr string

datatype jsaddr = Undefined | Null | Array "string list"

record mxdata =
  preference :: jsnum
  host :: string
  address :: jsaddr

datatype rddata = RD_undefined | RD_string string | RD_mx mxdata

record rr =
  rec_dom :: string
  rec_type :: rectype
  rec_cls :: jsnum
  rec_ttl :: jsnum
  rec_rdlen :: jsnum
  rec_recognized :: bool
  rec_rddata :: rddata

text \<open>The TXT loop \<open>while (rec.rdlen > 0 && ctr-- > 0)\<close>; it returns the text, the index
  and what is left of \<open>rec.rdlen\<close>.\<close>

fun readRec_txt :: "nat \<Rightarrow> string \<Rightarrow> jsnum \<Rightarrow> jsnum \<Rightarrow> string \<Rightarrow> string \<times> jsnum \<times> jsnum" where
  "readRec_txt 0 str idx rdlen rddata = (rddata, idx, rdlen)"
| "readRec_txt (Suc ctr) str idx rdlen rddata =
     (if js_gt rdlen (Num 0)
      then let txtlen = DNS_strToOctet (substr str idx (Num 1));
               idx1 = js_add idx (Num 1);
               rdlen1 = js_sub rdlen (Num 1)
           in readRec_txt ctr str (js_add idx1 txtlen) (js_sub rdlen1 txtlen)
                (rddata @ substr str idx1 txtlen)
      else (rddata, idx, rdlen))"

definition dotted_quad :: "string \<Rightarrow> string" where
  "dotted_quad d =
     js_toString (charCodeAt d (Num 0)) @ ''.'' @ js_toString (charCodeAt d (Num 1)) @ ''.'' @
     js_toString (charCodeAt d (Num 2)) @ ''.'' @ js_toString (charCodeAt d (Num 3))"

text \<open>The type-specific part of \<open>DNS_readRec\<close>: the record and the index it leaves, before
  \<open>ctx.idx = ctxnextidx\<close> overwrites the index.\<close>

definition readRec_rdata :: "nat \<Rightarrow> string \<Rightarrow> jsnum \<Rightarrow> rr \<Rightarrow> (rr \<times> jsnum) option" where
  "readRec_rdata stack str idx r =
     (if rec_type r = TypeNum (Num 16) then
        (let (txt, idx', rdlen') = readRec_txt 10 str idx (rec_rdlen r) []
         in Some (r\<lparr>rec_type := TypeStr ''TXT'', rec_rdlen := rdlen', rec_rddata := RD_string txt\<rparr>, idx'))
      else if rec_type r = TypeNum (Num 1) then
        Some (r\<lparr>rec_type := TypeStr ''A'',
                rec_rddata := RD_string (dotted_quad (substr str idx (rec_rdlen r)))\<rparr>, idx)
      else if rec_type r = TypeNum (Num 15) then
        (let pref = DNS_strToWord (substr str idx (Num 2)); idx1 = js_add idx (Num 2)
         in case DNS_readDomain stack str idx1 of
              None \<Rightarrow> None
            | Some (h, idx2) \<Rightarrow>
                Some (r\<lparr>rec_type := TypeStr ''MX'',
                        rec_rddata := RD_mx \<lparr>preference = pref, host = h, address = Undefined\<rparr>\<rparr>, idx2))
      else if rec_type r = TypeNum (Num 2) then
        (case DNS_readDomain stack str idx of
           None \<Rightarrow> None
         | Some (d, idx1) \<Rightarrow> Some (r\<lparr>rec_type := TypeStr ''NS'', rec_rddata := RD_string d\<rparr>, idx1))
      else if rec_type r = TypeNum (Num 12) then
        (case DNS_readDomain stack str idx of
           None \<Rightarrow> None
         | Some (d, idx1) \<Rightarrow> Some (r\<lparr>rec_type := TypeStr ''PTR'', rec_rddata := RD_string d\<rparr>, idx1))
      else if rec_type r = TypeNum (Num 5) then
        Some (r\<lparr>rec_type := TypeStr ''CNAME'', rec_rddata := RD_string []\<rparr>, idx)
      else Some (r\<lparr>rec_recognized := False\<rparr>, idx))"

definition DNS_readRec :: "nat \<Rightarrow> string \<Rightarrow> jsnum \<Rightarrow> (rr \<times> jsnum) option" where
  "DNS_readRec stack str idx =
     (case DNS_readDomain stack str idx of
        None \<Rightarrow> None
      | Some (d, idx0) \<Rightarrow>
          (let ty = DNS_strToWord (substr str idx0 (Num 2)); idx1 = js_add idx0 (Num 2);
               cls = DNS_strToWord (substr str idx1 (Num 2)); idx2 = js_add idx1 (Num 2);
               ttl = DNS_strToWord (substr str idx2 (Num 2)); idx3 = js_add idx2 (Num 4);
               rdlen = DNS_strToWord (substr str idx3 (Num 2)); idx4 = js_add idx3 (Num 2);
               r = \<lparr>rec_dom = d, rec_type = TypeNum ty, rec_cls = cls, rec_ttl = ttl,
                    rec_rdlen = rdlen, rec_recognized = True, rec_rddata = RD_undefined\<rparr>;
               ctxnextidx = js_add idx4 rdlen
           in case readRec_rdata stack str idx4 r of
                None \<Rightarrow> None
              | Some (r', _) \<Rightarrow> Some (r', ctxnextidx)))"

section \<open>Response decoding (dns.js 645-747)\<close>

text \<open>
  What \<open>DNS_getRDData\<close> can throw: its own \<open>throw "..."\<close> statements, the engine's
  TypeError for a property read on \<open>undefined\<close>, its RangeError for \<open>Array(NaN)\<close>, and
  its recursion error when the name decoder exhausts the call stack.
\<close>

datatype exn = Throw string | TypeError | RangeError | TooMuchRecursion

text \<open>What \<open>DNS_getRDData\<close> does when it does not throw: it calls back with the results,
  or queries the name server of an authority record, or calls back with \<open>null\<close>.\<close>

datatype action = Deliver "rddata list" | Recurse string | NoAnswer

text \<open>The body of the question loop (676-680); it runs once, since \<open>qcount\<close> is 1.\<close>

definition getRDData_question ::
    "nat \<Rightarrow> string \<Rightarrow> jsnum \<Rightarrow> (string \<times> jsnum \<times> jsnum \<times> jsnum) option" where
  "getRDData_question stack str idx =
     (case DNS_readDomain stack str idx of
        None \<Rightarrow> None
      | Some (d, idx0) \<Rightarrow>
          (let ty = DNS_strToWord (substr str idx0 (Num 2)); idx1 = js_add idx0 (Num 2);
               cls = DNS_strToWord (substr str idx1 (Num 2)); idx2 = js_add idx1 (Num 2)
           in Some (d, ty, cls, idx2)))"

text \<open>The answer loop (685-697), by recursion on the records that remain.\<close>

fun getRDData_answers ::
    "nat \<Rightarrow> nat \<Rightarrow> string \<Rightarrow> jsnum \<Rightarrow> rddata list \<Rightarrow> exn + (rddata list \<times> jsnum)" where
  "getRDData_answers stack 0 str idx results = Inr (results, idx)"
| "getRDData_answers stack (Suc n) str idx results =
     (case DNS_readRec stack str idx of
        None \<Rightarrow> Inl TooMuchRecursion
      | Some (r, idx') \<Rightarrow>
          if \<not> rec_recognized r
          then Inl (Throw ''Record type is not one that this library can understand.'')
          else getRDData_answers stack n str idx'
                 (if rec_type r \<noteq> TypeStr ''CNAME'' then results @ [rec_rddata r] else results))"

text \<open>The authority loop (699-707).\<close>

fun getRDData_authorities ::
    "nat \<Rightarrow> nat \<Rightarrow> string \<Rightarrow> jsnum \<Rightarrow> rr list \<Rightarrow> exn + (rr list \<times> jsnum)" where
  "getRDData_authorities stack 0 str idx authorities = Inr (authorities, idx)"
| "getRDData_authorities stack (Suc n) str idx authorities =
     (case DNS_readRec stack str idx of
        None \<Rightarrow> Inl TooMuchRecursion
      | Some (r, idx') \<Rightarrow> getRDData_authorities stack n str idx' (authorities @ [r]))"

text \<open>
  The loop over \<open>results\<close> for one additional A record (715-722). \<open>results[j].host\<close> is
  \<open>undefined\<close> when the result is a string. When the host matches, \<open>address\<close> is replaced
  by an empty array if it is \<open>null\<close>, and then \<open>results[j].address.length\<close> is read: on
  \<open>undefined\<close> this throws.
\<close>

fun getRDData_glue :: "string \<Rightarrow> string \<Rightarrow> rddata list \<Rightarrow> exn + rddata list" where
  "getRDData_glue d a [] = Inr []"
| "getRDData_glue d a (RD_mx m # rest) =
     (if host m \<noteq> [] \<and> host m = d
      then (case (if address m = Null then Array [] else address m) of
              Array xs \<Rightarrow>
                (case getRDData_glue d a rest of
                   Inl e \<Rightarrow> Inl e
                 | Inr rest' \<Rightarrow> Inr (RD_mx (m\<lparr>address := Array (xs @ [a])\<rparr>) # rest'))
            | _ \<Rightarrow> Inl TypeError)
      else (case getRDData_glue d a rest of
              Inl e \<Rightarrow> Inl e
            | Inr rest' \<Rightarrow> Inr (RD_mx m # rest')))"
| "getRDData_glue d a (x # rest) =
     (case getRDData_glue d a rest of Inl e \<Rightarrow> Inl e | Inr rest' \<Rightarrow> Inr (x # rest'))"

text \<open>The additional loop (709-724). The data of an A record is a string.\<close>

fun getRDData_additional ::
    "nat \<Rightarrow> nat \<Rightarrow> string \<Rightarrow> jsnum \<Rightarrow> rddata list \<Rightarrow> exn + (rddata list \<times> jsnum)" where
  "getRDData_additional stack 0 str idx results = Inr (results, idx)"
| "getRDData_additional stack (Suc n) str idx results =
     (case DNS_readRec stack str idx of
        None \<Rightarrow> Inl TooMuchRecursion
      | Some (r, idx') \<Rightarrow>
          if rec_type r = TypeStr ''A''
          then (case getRDData_glue (rec_dom r)
                       (case rec_rddata r of RD_string a \<Rightarrow> a | _ \<Rightarrow> []) results of
                  Inl e \<Rightarrow> Inl e
                | Inr results' \<Rightarrow> getRDData_additional stack n str idx' results')
          else getRDData_additional stack n str idx' results)"

text \<open>The search for an authority to recurse on (735-741).\<close>

fun getRDData_recurse :: "string \<Rightarrow> rr list \<Rightarrow> string option" where
  "getRDData_recurse server [] = None"
| "getRDData_recurse server (a # as) =
     (if rec_type a = TypeStr ''NS'' \<and> rec_rddata a \<noteq> RD_string server
      then Some (case rec_rddata a of RD_string ns \<Rightarrow> ns | _ \<Rightarrow> [])
      else getRDData_recurse server as)"

text \<open>The number of iterations of \<open>for (i = 0; i < n; i++)\<close>: none when \<open>n\<close> is NaN.\<close>

definition iterations :: "jsnum \<Rightarrow> nat" where
  "iterations n = nat (ToInteger n)"

definition DNS_getRDData :: "nat \<Rightarrow> string \<Rightarrow> string \<Rightarrow> exn + action" where
  "DNS_getRDData stack str server =
     (let qcount = DNS_strToWord (substr str (Num 4) (Num 2));
          ancount = DNS_strToWord (substr str (Num 6) (Num 2));
          aucount = DNS_strToWord (substr str (Num 8) (Num 2));
          adcount = DNS_strToWord (substr str (Num 10) (Num 2))
      in if qcount \<noteq> Num 1
         then Inl (Throw ''Invalid response: Question section didn't have exactly one record.'')
         else if js_gt ancount (Num 128)
         then Inl (Throw ''Invalid response: Answer section had more than 128 records.'')
         else if js_gt aucount (Num 128)
         then Inl (Throw ''Invalid response: Authority section had more than 128 records.'')
         else if js_gt adcount (Num 128)
         then Inl (Throw ''Invalid response: Additional section had more than 128 records.'')
         else
           (case getRDData_question stack str (Num 12) of
              None \<Rightarrow> Inl TooMuchRecursion
            | Some (_, _, _, idx1) \<Rightarrow>
           (case getRDData_answers stack (iterations ancount) str idx1 [] of
              Inl e \<Rightarrow> Inl e
            | Inr (results, idx2) \<Rightarrow>
           if aucount = NaN then Inl RangeError else
           (case getRDData_authorities stack (iterations aucount) str idx2 [] of
              Inl e \<Rightarrow> Inl e
            | Inr (authorities, idx3) \<Rightarrow>
           (case getRDData_additional stack (iterations adcount) str idx3 results of
              Inl e \<Rightarrow> Inl e
            | Inr (results', _) \<Rightarrow>
           if results' \<noteq> [] then Inr (Deliver results')
           else (case getRDData_recurse server authorities of
                   Some ns \<Rightarrow> Inr (Recurse ns)
                 | None \<Rightarrow> Inr NoAnswer))))))"

section \<open>Query encoding (dns.js 436-470)\<close>

text \<open>The \<open>for\<close> loop over \<open>hostparts\<close> (448-450).\<close>

fun query_hostparts :: "string list \<Rightarrow> string" where
  "query_hostparts [] = []"
| "query_hostparts (p # ps) = DNS_octetToStr (length p) @ p @ query_hostparts ps"

definition query_type :: "string \<Rightarrow> nat option" where
  "query_type recordtype =
     (if recordtype = ''A'' then Some 1
      else if recordtype = ''NS'' then Some 2
      else if recordtype = ''CNAME'' then Some 5
      else if recordtype = ''PTR'' then Some 12
      else if recordtype = ''MX'' then Some 15
      else if recordtype = ''TXT'' then Some 16
      else None)"

text \<open>The message that \<open>queryDNSRecursive\<close> sends, with its length prefix; the identifier
  is the string literal \<open>"00"\<close>.\<close>

definition build_query :: "string \<Rightarrow> string \<Rightarrow> exn + string" where
  "build_query hostname recordtype =
     (let query = ''00'' @ [char_of (1::nat)] @ [char_of (0::nat)] @
                  DNS_wordToStr 1 @ DNS_wordToStr 0 @ DNS_wordToStr 0 @ DNS_wordToStr 0;
          query1 = query @ query_hostparts (js_split CHR ''.'' hostname) @ DNS_octetToStr 0
      in case query_type recordtype of
           None \<Rightarrow> Inl (Throw ''Invalid record type.'')
         | Some t \<Rightarrow>
             (let query2 = query1 @ DNS_wordToStr t @ DNS_wordToStr 1
              in Inr (DNS_wordToStr (length query2) @ query2)))"

section \<open>The stream listener (dns.js 472-545, 803-827)\<close>

text \<open>The listener's \<open>done\<close> is \<open>isdone\<close> here.\<close>

record listener =
  msgsize :: "jsnum option"
  readcount :: nat
  responseHeader :: string
  responseBody :: string
  isdone :: bool

definition new_listener :: listener where
  "new_listener = \<lparr>msgsize = None, readcount = 0, responseHeader = [], responseBody = [],
                    isdone = False\<rparr>"

text \<open>The loop that moves characters to \<open>responseHeader\<close> (526-529).\<close>

fun process_header :: "string \<Rightarrow> string \<Rightarrow> string \<times> string" where
  "process_header h [] = (h, [])"
| "process_header h (c # cs) =
     (if length h < 14 then process_header (h @ [c]) cs else (h, c # cs))"

text \<open>\<open>process(data)\<close>: the listener afterwards, the value returned, and the message handed
  to \<open>DNS_getRDData\<close> if the response is complete.\<close>

definition process :: "listener \<Rightarrow> string \<Rightarrow> listener \<times> bool \<times> string option" where
  "process L data =
     (if isdone L then (L, False, None)
      else let L1 = L\<lparr>readcount := readcount L + length data\<rparr>;
               (h, data') = process_header (responseHeader L1) data;
               L2 = L1\<lparr>responseHeader := h\<rparr>
           in if length h = 14
              then (let sz = DNS_strToWord (substr h (Num 0) (Num 2));
                        L3 = L2\<lparr>msgsize := Some sz, responseBody := responseBody L2 @ data'\<rparr>
                    in if js_ge (Num (int (readcount L3))) (js_add sz (Num 2))
                       then (let L4 = L3\<lparr>responseHeader := drop 2 h, isdone := True\<rparr>
                             in (L4, False, Some (responseHeader L4 @ responseBody L4)))
                       else (L3, True, None))
              else (L2, True, None))"

text \<open>
  \<open>onDataAvailable\<close> hands each chunk to \<open>process\<close> and closes the streams when it returns
  false; no data arrives after that.
\<close>

fun onDataAvailable :: "listener \<Rightarrow> string list \<Rightarrow> listener \<times> string option" where
  "onDataAvailable L [] = (L, None)"
| "onDataAvailable L (d # ds) =
     (case process L d of
        (L', _, Some msg) \<Rightarrow> (L', Some msg)
      | (L', False, None) \<Rightarrow> (L', None)
      | (L', True, None) \<Rightarrow> onDataAvailable L' ds)"

text \<open>
  \<open>finished(data, status)\<close> (478-518), called by \<open>onStopRequest\<close> (806-809) when the
  stream stops, whatever was received before. It tests \<open>status\<close> first: a status other
  than 0 is a failure (\<open>Failed\<close>), also when \<open>done\<close> is already set. With status 0 it
  calls \<open>process(data)\<close> and then tests \<open>done\<close>: the response is \<open>Incomplete\<close>, or
  there is \<open>Nothing\<close> to do, or this last call of \<open>process\<close> has completed a message
  (\<open>Message\<close>). The data listener's buffer \<open>data\<close> is empty after every
  \<open>onDataAvailable\<close> that returns; after one that an exception has left it still holds
  the last chunk, but \<open>done\<close> is set then and \<open>process\<close> returns at once.
\<close>

datatype reply = Message string | Failed nat | Incomplete | Nothing

definition finished :: "listener \<Rightarrow> nat \<Rightarrow> reply" where
  "finished L status =
     (if status \<noteq> 0 then Failed status
      else (case process L [] of
              (L', _, Some msg) \<Rightarrow> Message msg
            | (L', _, None) \<Rightarrow> if \<not> isdone L' then Incomplete else Nothing))"

text \<open>
  A connection as the socket delivers it: the chunks of data, then the stop with its
  status. The result is the message handed to \<open>DNS_getRDData\<close> while the data arrived,
  if the chunks complete one, and what \<open>finished\<close> makes of the stop. \<open>finished\<close> is
  called in every case, also after a complete message and after an exception thrown by
  \<open>DNS_getRDData\<close>.
\<close>

definition connection :: "string list \<Rightarrow> nat \<Rightarrow> string option \<times> reply" where
  "connection chunks status =
     (case onDataAvailable new_listener chunks of (L, m) \<Rightarrow> (m, finished L status))"

section \<open>The resolver (dns.js 338-343, 404-559)\<close>

text \<open>An entry of \<open>DNS_ROOT_NAME_SERVERS\<close>.\<close>

record nameserver =
  server :: string
  alive :: bool

text \<open>The messages of the locale module \<open>DNS_STRINGS\<close>, and the literal
  \<open>"no DNS Server alive"\<close>.\<close>

datatype errmsg =
    NoServerAlive
  | TOO_MANY_HOPS
  | CONNECTION_REFUSED string
  | TIMED_OUT string
  | SERVER_ERROR string
  | INCOMPLETE_RESPONSE string

text \<open>
  What a lookup does, in order. \<open>Query\<close> is a call of \<open>DNS_readAllFromSocket\<close>: it
  records the server, the index of the pool entry it was taken from (none when the server
  was designated by the caller of \<open>queryDNSRecursive\<close>), the value of \<open>hops\<close> and the
  host, port and bytes given to the socket. \<open>Callback\<close> is a call of the caller's
  \<open>callback\<close>, with the result (\<open>None\<close> is \<open>null\<close>) and the error if one is passed.
  \<open>Uncaught\<close> is an exception that leaves \<open>queryDNSRecursive\<close> or the listener: nothing
  in dns.js catches it and the callback is not called for it. It goes to the platform's
  stream pump when it leaves the listener; the stop of the stream is still handled by
  \<open>finished\<close>.
\<close>

datatype port = PortNum nat | PortStr string

datatype event =
    Query (q_server: string) (q_entry: "nat option") (q_hops: nat)
          (q_host: string) (q_port: port) (q_bytes: string)
  | Callback "rddata list option" "errmsg option"
  | Uncaught exn

text \<open>
  What the network does to the connection of a query: nothing at all, or the socket
  cannot be set up (\<open>DNS_readAllFromSocket\<close> returns the exception, which is only
  logged), or data arrives in chunks and the stream stops with a status. A connection can
  make dns.js send two further queries, one while the data is handled (to the name server
  of a referral) and one when the stop is handled (to the next server of the pool), so a
  \<open>Stream\<close> also holds what the network does to these two: first the one sent for the
  data, then the one sent for the stop.
\<close>

datatype net = Silent | SocketException | Stream "string list" nat net net

text \<open>The scan for the next alive server (413-419), from index \<open>i\<close>.\<close>

fun next_alive :: "nat \<Rightarrow> nameserver list \<Rightarrow> nat option" where
  "next_alive i [] = None"
| "next_alive i (s # ss) = (if alive s then Some i else next_alive (Suc i) ss)"

text \<open>The error passed to the callback for a status other than 0 (480-500).
  \<open>NS_ERROR_NET_TIMEOUT\<close> is a constant of the platform.\<close>

definition status_error :: "nat \<Rightarrow> nat \<Rightarrow> string \<Rightarrow> errmsg" where
  "status_error NS_ERROR_NET_TIMEOUT status srv =
     (if status = 2152398861 then CONNECTION_REFUSED srv
      else if status = 2152398868 then TIMED_OUT srv
      else if status = NS_ERROR_NET_TIMEOUT then TIMED_OUT srv
      else SERVER_ERROR srv)"

text \<open>The host and the port of \<open>hostname:port\<close> (547-553).\<close>

definition server_hostname :: "string \<Rightarrow> string" where
  "server_hostname srv = takeWhile (\<lambda>c. c \<noteq> CHR '':'') srv"

definition server_port :: "string \<Rightarrow> port" where
  "server_port srv =
     (if CHR '':'' \<in> set srv then PortStr (tl (dropWhile (\<lambda>c. c \<noteq> CHR '':'') srv))
      else PortNum 53)"

text \<open>
  \<open>queryDNSRecursive(server, host, recordtype, callback, callbackdata, hops, servers)\<close>.
  The calls are chained through the socket's callbacks: the listener of one query calls
  \<open>DNS_getRDData\<close>, which calls \<open>queryDNSRecursive\<close> for a referral, and \<open>finished\<close>
  calls \<open>queryDNSRecursive\<close> for the next server of the pool. The model takes what the
  network does as \<open>net\<close> and returns the events of the lookup and the \<open>servers\<close> array as
  the lookup leaves it. The events that follow a query are those of its data (with all
  that the query sent for a referral leads to), then those of its stop (with all that the
  query sent to the next server leads to); in time, the events of the two queries can
  interleave. \<open>servers\<close> is \<open>None\<close> for \<open>undefined\<close> and \<open>server\<close> is \<open>None\<close> for
  \<open>null\<close>; \<open>stack\<close> is the depth of the call stack left to \<open>DNS_readDomain\<close>. Only
  calls with \<open>servers\<close> change the array, and a referral is followed without it.
\<close>

fun queryDNSRecursive ::
    "nat \<Rightarrow> net \<Rightarrow> nat \<Rightarrow> string option \<Rightarrow> string \<Rightarrow> string \<Rightarrow> nat \<Rightarrow>
     nameserver list option \<Rightarrow> event list \<times> nameserver list option" where
  "queryDNSRecursive NS_ERROR_NET_TIMEOUT net stack server0 hostname recordtype hops servers =
     (case (case servers of
              None \<Rightarrow> Some (server0, None)
            | Some ss \<Rightarrow>
                (case next_alive 0 ss of
                   None \<Rightarrow> None
                 | Some i \<Rightarrow> Some (Some (server (ss ! i)), Some i))) of
        None \<Rightarrow> ([Callback None (Some NoServerAlive)], servers)
      | Some (server1, entry) \<Rightarrow>
          if hops = 10 then ([Callback None (Some TOO_MANY_HOPS)], servers)
          else
            (case build_query hostname recordtype of
               Inl e \<Rightarrow> ([Uncaught e], servers)
             | Inr query \<Rightarrow>
            (case server1 of
               None \<Rightarrow> ([Uncaught TypeError], servers)
             | Some srv \<Rightarrow>
            (let q = Query srv entry hops (server_hostname srv) (server_port srv) query
             in case net of
                  Silent \<Rightarrow> ([q], servers)
                | SocketException \<Rightarrow> ([q], servers)
                | Stream chunks status net1 net2 \<Rightarrow>
                    (case connection chunks status of
                       (m, stop) \<Rightarrow>
                         (let data_events =
                                (case m of
                                   None \<Rightarrow> []
                                 | Some msg \<Rightarrow>
                                     (case DNS_getRDData stack msg srv of
                                        Inl e \<Rightarrow> [Uncaught e]
                                      | Inr (Deliver results) \<Rightarrow> [Callback (Some results) None]
                                      | Inr (Recurse ns) \<Rightarrow>
                                          fst (queryDNSRecursive NS_ERROR_NET_TIMEOUT net1 stack
                                                 (Some ns) hostname recordtype (hops + 1) None)
                                      | Inr NoAnswer \<Rightarrow> [Callback None None]));
                              stopped =
                                (case stop of
                                   Failed st \<Rightarrow>
                                     (case (servers, entry) of
                                        (Some ss, Some i) \<Rightarrow>
                                          queryDNSRecursive NS_ERROR_NET_TIMEOUT net2 stack None
                                            hostname recordtype hops
                                            (Some (ss[i := (ss ! i)\<lparr>alive := False\<rparr>]))
                                      | _ \<Rightarrow>
                                          ([Callback None
                                              (Some (status_error NS_ERROR_NET_TIMEOUT st srv))],
                                           servers))
                                 | Incomplete \<Rightarrow>
                                     ([Callback None (Some (INCOMPLETE_RESPONSE srv))], servers)
                                 | Nothing \<Rightarrow> ([], servers)
                                 | Message msg \<Rightarrow>
                                     ((case DNS_getRDData stack msg srv of
                                         Inl e \<Rightarrow> [Uncaught e]
                                       | Inr (Deliver results) \<Rightarrow> [Callback (Some results) None]
                                       | Inr (Recurse ns) \<Rightarrow>
                                           fst (queryDNSRecursive NS_ERROR_NET_TIMEOUT net2 stack
                                                  (Some ns) hostname recordtype (hops + 1) None)
                                       | Inr NoAnswer \<Rightarrow> [Callback None None]),
                                      servers))
                          in (q # data_events @ fst stopped, snd stopped)))))))"

declare queryDNSRecursive.simps [simp del]

text \<open>\<open>queryDNS\<close>, the entry point, on the pool \<open>DNS_ROOT_NAME_SERVERS\<close>.\<close>

definition queryDNS ::
    "nat \<Rightarrow> net \<Rightarrow> nat \<Rightarrow> nameserver list \<Rightarrow> string \<Rightarrow> string \<Rightarrow>
     event list \<times> nameserver list option" where
  "queryDNS NS_ERROR_NET_TIMEOUT net stack DNS_ROOT_NAME_SERVERS hostname recordtype =
     queryDNSRecursive NS_ERROR_NET_TIMEOUT net stack None hostname recordtype 0
       (Some DNS_ROOT_NAME_SERVERS)"

section \<open>Notions used in the statements\<close>



text \<open>The records of the answer section as \<open>DNS_readRec\<close> reads them one after the other,
  up to the first that exhausts the call stack.\<close>

fun answer_records :: "nat \<Rightarrow> nat \<Rightarrow> string \<Rightarrow> jsnum \<Rightarrow> rr list" where
  "answer_records stack 0 str idx = []"
| "answer_records stack (Suc n) str idx =
     (case DNS_readRec stack str idx of
        None \<Rightarrow> []
      | Some (r, idx') \<Rightarrow> r # answer_records stack n str idx')"

definition answer_section :: "nat \<Rightarrow> string \<Rightarrow> rr list" where
  "answer_section stack str =
     (case getRDData_question stack str (Num 12) of
        None \<Rightarrow> []
      | Some (_, _, _, idx1) \<Rightarrow>
          answer_records stack (iterations (DNS_strToWord (substr str (Num 6) (Num 2)))) str idx1)"

text \<open>
  A response is invalid when QDCOUNT is not 1, or one of ANCOUNT, NSCOUNT, ARCOUNT exceeds
  128, or a record of the answer section has a type that \<open>DNS_readRec\<close> does not
  recognize.
\<close>

definition invalid_response :: "nat \<Rightarrow> string \<Rightarrow> bool" where
  "invalid_response stack str =
     (DNS_strToWord (substr str (Num 4) (Num 2)) \<noteq> Num 1 \<or>
      js_gt (DNS_strToWord (substr str (Num 6) (Num 2))) (Num 128) \<or>
      js_gt (DNS_strToWord (substr str (Num 8) (Num 2))) (Num 128) \<or>
      js_gt (DNS_strToWord (substr str (Num 10) (Num 2))) (Num 128) \<or>
      list_ex (\<lambda>r. \<not> rec_recognized r) (answer_section stack str))"

definition invalid_response_messages :: "string list" where
  "invalid_response_messages =
     [''Invalid response: Question section didn't have exactly one record.'',
      ''Invalid response: Answer section had more than 128 records.'',
      ''Invalid response: Authority section had more than 128 records.'',
      ''Invalid response: Additional section had more than 128 records.'',
      ''Record type is not one that this library can understand.'']"



text \<open>Labels joined with dots, and the name that the decoding loop builds from them.\<close>

fun join_dot :: "string list \<Rightarrow> string" where
  "join_dot [] = []"
| "join_dot [p] = p"
| "join_dot (p # ps) = p @ ''.'' @ join_dot ps"

fun add_labels :: "string \<Rightarrow> string list \<Rightarrow> string" where
  "add_labels acc [] = acc"
| "add_labels acc (p # ps) = add_labels ((if acc \<noteq> [] then acc @ ''.'' else acc) @ p) ps"

text \<open>
  The listener is waiting for more data: \<open>done\<close> is not set, and either the header is not
  yet complete or fewer bytes than the length prefix plus 2 have been counted.
\<close>

definition pending :: "listener \<Rightarrow> bool" where
  "pending L =
     (\<not> isdone L \<and> length (responseHeader L) \<le> 14 \<and>
      (length (responseHeader L) < 14 \<or>
       \<not> js_ge (Num (int (readcount L)))
            (js_add (DNS_strToWord (substr (responseHeader L) (Num 0) (Num 2))) (Num 2))))"

text \<open>
  The end of a name in a message \<open>str\<close>: the zero byte, or a compression pointer (two bytes,
  the first at least 192) to an offset at which \<open>DNS_readDomain\<close> returns with one level
  less of the call stack.
\<close>

definition name_end :: "nat \<Rightarrow> string \<Rightarrow> string \<Rightarrow> bool" where
  "name_end stack str t =
     (t = [CHR 0x00] \<or>
      (length t = 2 \<and> 192 \<le> (of_char (t ! 0) :: nat) \<and> stack \<noteq> 0 \<and>
       DNS_readDomain (stack - 1) str
         (Num (int (of_char (t ! 0) mod 64 * 256 + of_char (t ! 1)))) \<noteq> None))"

text \<open>
  The names in the data of a record of type \<open>ty\<close> whose data starts at \<open>idx\<close> are decoded:
  \<open>DNS_readDomain\<close> returns on the host of an MX record and on the name of an NS or PTR
  record. The data of the other types holds no name that \<open>DNS_readRec\<close> decodes.
\<close>

definition rdata_decodes :: "nat \<Rightarrow> string \<Rightarrow> jsnum \<Rightarrow> jsnum \<Rightarrow> bool" where
  "rdata_decodes stack str ty idx =
     (if ty = Num 15 then DNS_readDomain stack str (js_add idx (Num 2)) \<noteq> None
      else if ty = Num 2 \<or> ty = Num 12 then DNS_readDomain stack str idx \<noteq> None
      else True)"

text \<open>
  The server that \<open>queryDNSRecursive\<close> queries and the pool entry it is taken from
  (408-426): the designated server when there is no pool, the first alive entry
  otherwise.
\<close>

definition chosen :: "string option \<Rightarrow> nameserver list option \<Rightarrow> string \<Rightarrow> nat option \<Rightarrow> bool" where
  "chosen server0 servers srv entry =
     (case servers of
        None \<Rightarrow> server0 = Some srv \<and> entry = None
      | Some ss \<Rightarrow>
          (case next_alive 0 ss of
             None \<Rightarrow> False
           | Some i \<Rightarrow> srv = server (ss ! i) \<and> entry = Some i))"



section \<open>Example messages\<close>

text \<open>A message whose name at offset 12 is a compression pointer to offset 12.\<close>

definition C1_loop :: string where
  "C1_loop = [CHR 0x00, CHR 0x00, CHR 0x00, CHR 0x00, CHR 0x00, CHR 0x00, CHR 0x00, CHR 0x00,
      CHR 0x00, CHR 0x00, CHR 0x00, CHR 0x00, CHR 0xC0, CHR 0x0C]"

text \<open>A message with 21 pointers from offset 12 on, each to the next, and then the
  name \<open>a\<close> at offset 54.\<close>

definition C1_chain :: string where
  "C1_chain =
     [CHR 0x00, CHR 0x00, CHR 0x00, CHR 0x00, CHR 0x00, CHR 0x00, CHR 0x00, CHR 0x00,
      CHR 0x00, CHR 0x00, CHR 0x00, CHR 0x00, CHR 0xC0, CHR 0x0E, CHR 0xC0, CHR 0x10,
      CHR 0xC0, CHR 0x12, CHR 0xC0, CHR 0x14, CHR 0xC0, CHR 0x16, CHR 0xC0, CHR 0x18,
      CHR 0xC0, CHR 0x1A, CHR 0xC0, CHR 0x1C, CHR 0xC0, CHR 0x1E, CHR 0xC0, CHR 0x20,
      CHR 0xC0, CHR 0x22, CHR 0xC0, CHR 0x24, CHR 0xC0, CHR 0x26, CHR 0xC0, CHR 0x28,
      CHR 0xC0, CHR 0x2A, CHR 0xC0, CHR 0x2C, CHR 0xC0, CHR 0x2E, CHR 0xC0, CHR 0x30,
      CHR 0xC0, CHR 0x32, CHR 0xC0, CHR 0x34, CHR 0xC0, CHR 0x36, CHR 0x01, CHR 0x61,
      CHR 0x00]"

text \<open>
  A response to the query \<open>example.org MX\<close>: one question; one answer at offset 29,
  \<open>example.org MX 10 mx.example.org\<close>; one additional record at offset 48,
  \<open>mx.example.org A 1.2.3.4\<close>.
\<close>

definition C3_response :: string where
  "C3_response =
     [CHR 0x00, CHR 0x00, CHR 0x81, CHR 0x80, CHR 0x00, CHR 0x01, CHR 0x00, CHR 0x01,
      CHR 0x00, CHR 0x00, CHR 0x00, CHR 0x01, CHR 0x07, CHR 0x65, CHR 0x78, CHR 0x61,
      CHR 0x6D, CHR 0x70, CHR 0x6C, CHR 0x65, CHR 0x03, CHR 0x6F, CHR 0x72, CHR 0x67,
      CHR 0x00, CHR 0x00, CHR 0x0F, CHR 0x00, CHR 0x01, CHR 0xC0, CHR 0x0C, CHR 0x00,
      CHR 0x0F, CHR 0x00, CHR 0x01, CHR 0x00, CHR 0x00, CHR 0x00, CHR 0x3C, CHR 0x00,
      CHR 0x07, CHR 0x00, CHR 0x0A, CHR 0x02, CHR 0x6D, CHR 0x78, CHR 0xC0, CHR 0x0C,
      CHR 0xC0, CHR 0x2B, CHR 0x00, CHR 0x01, CHR 0x00, CHR 0x01, CHR 0x00, CHR 0x00,
      CHR 0x00, CHR 0x3C, CHR 0x00, CHR 0x04, CHR 0x01, CHR 0x02, CHR 0x03, CHR 0x04]"

text \<open>The same response without the additional record: ARCOUNT is 0.\<close>

definition C3_noglue :: string where
  "C3_noglue = (take 48 C3_response)[11 := CHR 0x00]"

text \<open>The query for \<open>a\<close>, type A, as sent.\<close>

definition C2_query :: string where
  "C2_query = [CHR 0x00, CHR 0x13, CHR 0x30, CHR 0x30, CHR 0x01, CHR 0x00, CHR 0x00, CHR 0x01,
      CHR 0x00, CHR 0x00, CHR 0x00, CHR 0x00, CHR 0x00, CHR 0x00, CHR 0x01, CHR 0x61,
      CHR 0x00, CHR 0x00, CHR 0x01, CHR 0x00, CHR 0x01]"

text \<open>A name of 20 labels, and the query for it, type A, as sent.\<close>

definition C4_host :: string where
  "C4_host = ''a.a.a.a.a.a.a.a.a.a.a.a.a.a.a.a.a.a.a.a''"

definition C4_query :: string where
  "C4_query =
     [CHR 0x00, CHR 0x39, CHR 0x30, CHR 0x30, CHR 0x01, CHR 0x00, CHR 0x00, CHR 0x01,
      CHR 0x00, CHR 0x00, CHR 0x00, CHR 0x00, CHR 0x00, CHR 0x00, CHR 0x01, CHR 0x61,
      CHR 0x01, CHR 0x61, CHR 0x01, CHR 0x61, CHR 0x01, CHR 0x61, CHR 0x01, CHR 0x61,
      CHR 0x01, CHR 0x61, CHR 0x01, CHR 0x61, CHR 0x01, CHR 0x61, CHR 0x01, CHR 0x61,
      CHR 0x01, CHR 0x61, CHR 0x01, CHR 0x61, CHR 0x01, CHR 0x61, CHR 0x01, CHR 0x61,
      CHR 0x01, CHR 0x61, CHR 0x01, CHR 0x61, CHR 0x01, CHR 0x61, CHR 0x01, CHR 0x61,
      CHR 0x01, CHR 0x61, CHR 0x01, CHR 0x61, CHR 0x01, CHR 0x61, CHR 0x00, CHR 0x00,
      CHR 0x01, CHR 0x00, CHR 0x01]"

text \<open>A response as the server sends it over TCP, with its length in front.\<close>

definition framed :: "string \<Rightarrow> string" where
  "framed msg = DNS_wordToStr (length msg) @ msg"

text \<open>Three responses to the query \<open>a A\<close>: a referral to the name server \<open>ns1\<close>, the
  answer \<open>1.2.3.4\<close>, and an answer with a record of type 28.\<close>

definition S_referral :: string where
  "S_referral =
     [CHR 0x30, CHR 0x30, CHR 0x80, CHR 0x00, CHR 0x00, CHR 0x01, CHR 0x00, CHR 0x00,
      CHR 0x00, CHR 0x01, CHR 0x00, CHR 0x00, CHR 0x01, CHR 0x61, CHR 0x00, CHR 0x00,
      CHR 0x01, CHR 0x00, CHR 0x01, CHR 0xC0, CHR 0x0C, CHR 0x00, CHR 0x02, CHR 0x00,
      CHR 0x01, CHR 0x00, CHR 0x00, CHR 0x00, CHR 0x3C, CHR 0x00, CHR 0x05, CHR 0x03,
      CHR 0x6E, CHR 0x73, CHR 0x31, CHR 0x00]"

definition S_answer :: string where
  "S_answer =
     [CHR 0x30, CHR 0x30, CHR 0x80, CHR 0x00, CHR 0x00, CHR 0x01, CHR 0x00, CHR 0x01,
      CHR 0x00, CHR 0x00, CHR 0x00, CHR 0x00, CHR 0x01, CHR 0x61, CHR 0x00, CHR 0x00,
      CHR 0x01, CHR 0x00, CHR 0x01, CHR 0xC0, CHR 0x0C, CHR 0x00, CHR 0x01, CHR 0x00,
      CHR 0x01, CHR 0x00, CHR 0x00, CHR 0x00, CHR 0x3C, CHR 0x00, CHR 0x04, CHR 0x01,
      CHR 0x02, CHR 0x03, CHR 0x04]"

definition S_unsupported :: string where
  "S_unsupported =
     [CHR 0x30, CHR 0x30, CHR 0x80, CHR 0x00, CHR 0x00, CHR 0x01, CHR 0x00, CHR 0x01,
      CHR 0x00, CHR 0x00, CHR 0x00, CHR 0x00, CHR 0x01, CHR 0x61, CHR 0x00, CHR 0x00,
      CHR 0x01, CHR 0x00, CHR 0x01, CHR 0xC0, CHR 0x0C, CHR 0x00, CHR 0x1C, CHR 0x00,
      CHR 0x01, CHR 0x00, CHR 0x00, CHR 0x00, CHR 0x3C, CHR 0x00, CHR 0x10, CHR 0x20,
      CHR 0x01, CHR 0x0D, CHR 0xB8, CHR 0x00, CHR 0x00, CHR 0x00, CHR 0x00, CHR 0x00,
      CHR 0x00, CHR 0x00, CHR 0x00, CHR 0x00, CHR 0x00, CHR 0x00, CHR 0x01]"

text \<open>A pool of two servers, the pool after the first has failed, a query of the
  examples, and the value of \<open>NS_ERROR_NET_TIMEOUT\<close> on the platform.\<close>

definition S_pool :: "nameserver list" where
  "S_pool = [\<lparr>server = ''8.8.8.8'', alive = True\<rparr>, \<lparr>server = ''8.8.4.4'', alive = True\<rparr>]"

definition S_pool_failed :: "nameserver list" where
  "S_pool_failed = [\<lparr>server = ''8.8.8.8'', alive = False\<rparr>, \<lparr>server = ''8.8.4.4'', alive = True\<rparr>]"

definition S_query :: "string \<Rightarrow> nat option \<Rightarrow> nat \<Rightarrow> event" where
  "S_query srv entry hops = Query srv entry hops srv (PortNum 53) C2_query"

definition S_net_timeout :: nat where
  "S_net_timeout = 2152398862"

text \<open>A referral to the name server \<open>ns2\<close>.\<close>

definition S_referral2 :: string where
  "S_referral2 =
     [CHR 0x30, CHR 0x30, CHR 0x80, CHR 0x00, CHR 0x00, CHR 0x01, CHR 0x00, CHR 0x00,
      CHR 0x00, CHR 0x01, CHR 0x00, CHR 0x00, CHR 0x01, CHR 0x61, CHR 0x00, CHR 0x00,
      CHR 0x01, CHR 0x00, CHR 0x01, CHR 0xC0, CHR 0x0C, CHR 0x00, CHR 0x02, CHR 0x00,
      CHR 0x01, CHR 0x00, CHR 0x00, CHR 0x00, CHR 0x3C, CHR 0x00, CHR 0x05, CHR 0x03,
      CHR 0x6E, CHR 0x73, CHR 0x32, CHR 0x00]"




text \<open>
  A record \<open>a.a. ... .a A 1.2.3.4\<close> whose owner name has 20 labels (55 bytes), and a
  response that holds it as its answer at offset 19, after the header and the question
  of \<open>S_answer\<close>.
\<close>

definition C10_record :: string where
  "C10_record =
     query_hostparts (replicate 20 ''a'') @ [CHR 0x00] @
     [CHR 0x00, CHR 0x01, CHR 0x00, CHR 0x01, CHR 0x00, CHR 0x00, CHR 0x00, CHR 0x3C,
      CHR 0x00, CHR 0x04] @
     [CHR 0x01, CHR 0x02, CHR 0x03, CHR 0x04]"

definition C10_message :: string where
  "C10_message = take 19 S_answer @ C10_record"

text \<open>
  A response whose answer at offset 19 is \<open>mx.a MX 10 mx.a\<close>: the owner name is the label
  \<open>mx\<close> and a pointer to offset 12, and the host is a pointer to offset 19.
\<close>

definition C10_example :: string where
  "C10_example =
     take 19 S_answer @
     [CHR 0x02, CHR 0x6D, CHR 0x78, CHR 0xC0, CHR 0x0C] @
     [CHR 0x00, CHR 0x0F, CHR 0x00, CHR 0x01, CHR 0x00, CHR 0x00, CHR 0x00, CHR 0x3C,
      CHR 0x00, CHR 0x04] @
     [CHR 0x00, CHR 0x0A, CHR 0xC0, CHR 0x13]"

section \<open>Properties of the codec\<close>

lemma js_add_Num_Num: "js_add (js_add x (Num a)) (Num b) = js_add x (Num (a + b))"
  by (cases x) simp_all

subsection \<open>Compression pointers\<close>

lemma C1_loop_12: "charCodeAt C1_loop (Num 12) = Num 192"
  by code_simp

lemma C1_loop_13: "charCodeAt C1_loop (Num 13) = Num 12"
  by code_simp

lemma C1_loop_while: "readDomain_while stack (Suc n) C1_loop (Num 12) [] = None"
proof (induction stack arbitrary: n)
  case 0
  show ?case by (simp add: C1_loop_12 C1_loop_13 js_shr_def)
next
  case (Suc stack)
  have "readDomain_while stack 20 C1_loop (Num 12) [] = None"
    using Suc [of 19] by simp
  then show ?case by (simp add: C1_loop_12 C1_loop_13 js_shr_def js_shl_def js_and63_def)
qed

lemma C1_chain_decodes: "DNS_readDomain 21 C1_chain (Num 12) = Some (''a'', Num 14)"
  by code_simp

text \<open>
  C1 (the claim: a name is decoded in at most 20 label or pointer steps in total, and a
  longer pointer chain, a pointer loop in particular, makes the decoding fail).
  The counter of 20 is local to one call of \<open>DNS_readDomain\<close> and a pointer starts a new
  call with a new counter. On the pointer loop \<open>C1_loop\<close> the decoder returns at no depth
  of the call stack: the calls nest until the stack is exhausted. On \<open>C1_chain\<close>, a chain
  of 21 pointers, it follows all of them and returns the name.
\<close>

theorem C1_pointer_chain_not_bounded:
  "DNS_readDomain stack C1_loop (Num 12) = None \<and>
   DNS_readDomain 21 C1_chain (Num 12) = Some (''a'', Num 14)"
proof -
  have "readDomain_while stack 20 C1_loop (Num 12) [] = None"
    using C1_loop_while [of stack 19] by simp
  then show ?thesis
    using C1_chain_decodes by (simp add: DNS_readDomain_def)
qed

subsection \<open>The query header\<close>

text \<open>
  C2, as stated, fails: the first two bytes of the header of the query for \<open>a\<close>, type A,
  are not 0x00 0x00. They are the characters of the string literal \<open>"00"\<close>, 0x30 0x30.
\<close>

theorem C2_query_id_counterexample:
  "build_query ''a'' ''A'' = Inr C2_query \<and> take 2 (drop 2 C2_query) \<noteq> [CHR 0x00, CHR 0x00]"
  by code_simp

text \<open>
  C2, amended: for every host name and every supported record type the query is built,
  it starts with its own length less 2 as a big-endian word, and the 12 bytes that follow
  are 0x30 0x30 (the identifier, the characters \<open>"00"\<close>), 0x01 (RD), 0x00, and the counts
  QDCOUNT = 1, ANCOUNT = 0, NSCOUNT = 0, ARCOUNT = 0.
\<close>

theorem C2_query_header:
  assumes "recordtype \<in> {''A'', ''NS'', ''CNAME'', ''PTR'', ''MX'', ''TXT''}"
  shows "\<exists>query. build_query hostname recordtype = Inr query \<and>
           take 2 query = DNS_wordToStr (length query - 2) \<and>
           map of_char (take 12 (drop 2 query)) = [48, 48, 1, 0, 0, 1, 0, 0, 0, 0, 0, 0 :: nat]"
proof -
  from assms obtain t where t: "query_type recordtype = Some t"
    by (auto simp: query_type_def)
  show ?thesis
    by (simp add: build_query_def t DNS_wordToStr_def DNS_octetToStr_def)
qed

theorem C2_query_header_witness:
  "''MX'' \<in> {''A'', ''NS'', ''CNAME'', ''PTR'', ''MX'', ''TXT''} \<and>
   (\<exists>query. build_query ''example.org'' ''MX'' = Inr query \<and>
           take 2 query = DNS_wordToStr (length query - 2) \<and>
           map of_char (take 12 (drop 2 query)) = [48, 48, 1, 0, 0, 1, 0, 0, 0, 0, 0, 0 :: nat])"
  using C2_query_header [of "''MX''" "''example.org''"] by simp

subsection \<open>MX results and additional A records\<close>

text \<open>
  C3 (the claim: an MX result whose host is the owner of an additional A record gets the
  list of the addresses as \<open>address\<close>, and an MX result without one has \<open>address\<close> equal
  to \<open>null\<close>). \<open>DNS_readRec\<close> creates the MX object without an \<open>address\<close> property, so
  \<open>address === null\<close> is false and the next statement reads \<open>address.length\<close> of
  \<open>undefined\<close>: on \<open>C3_response\<close>, where the additional A record matches the MX host,
  \<open>DNS_getRDData\<close> throws a TypeError and delivers nothing; without the additional
  record the result is delivered with \<open>address\<close> undefined.
\<close>

theorem C3_glue_throws:
  "DNS_getRDData 5 C3_response ''8.8.8.8'' = Inl TypeError \<and>
   DNS_getRDData 5 C3_noglue ''8.8.8.8'' =
     Inr (Deliver [RD_mx \<lparr>preference = Num 10, host = ''mx.example.org'', address = Undefined\<rparr>])"
  by code_simp

subsection \<open>Encoding and decoding the question\<close>

lemma js_split_not_Nil: "js_split sep s \<noteq> []"
  by (induction s) (auto split: list.splits)

lemma join_dot_Cons_Cons: "join_dot ((c # p) # ps) = c # join_dot (p # ps)"
  by (cases ps) simp_all

lemma join_dot_split: "join_dot (js_split CHR ''.'' s) = s"
proof (induction s)
  case Nil
  show ?case by simp
next
  case (Cons c cs)
  show ?case
  proof (cases "c = CHR ''.''")
    case True
    obtain p ps where "js_split CHR ''.'' cs = p # ps"
      by (cases "js_split CHR ''.'' cs") (simp_all add: js_split_not_Nil)
    with True Cons show ?thesis by simp
  next
    case False
    obtain p ps where "js_split CHR ''.'' cs = p # ps"
      by (cases "js_split CHR ''.'' cs") (simp_all add: js_split_not_Nil)
    with False Cons show ?thesis by (simp add: join_dot_Cons_Cons)
  qed
qed

lemma add_labels_nonempty:
  "acc \<noteq> [] \<Longrightarrow> add_labels acc ps = acc @ concat (map (\<lambda>p. ''.'' @ p) ps)"
  by (induction ps arbitrary: acc) simp_all

lemma join_dot_concat: "join_dot (p # ps) = p @ concat (map (\<lambda>p. ''.'' @ p) ps)"
  by (induction ps arbitrary: p) simp_all

lemma add_labels_join:
  assumes "\<forall>p \<in> set ps. p \<noteq> []" and "ps \<noteq> []"
  shows "add_labels [] ps = join_dot ps"
proof -
  from assms obtain p rest where ps: "ps = p # rest" and "p \<noteq> []"
    by (cases ps) auto
  then show ?thesis
    by (simp add: add_labels_nonempty join_dot_concat)
qed

lemma of_char_char_of_mod: "(of_char (char_of (n::nat)) :: int) = int (n mod 256)"
proof -
  have "(of_char (char_of n) :: int) = int (of_char (char_of n))"
    by (simp only: of_nat_of_char)
  then show ?thesis by simp
qed

lemma of_char_char_of_nat: "n < 256 \<Longrightarrow> (of_char (char_of (n::nat)) :: int) = int n"
  by (simp add: of_char_char_of_mod)

lemma char_of_zero: "char_of (0::nat) = CHR 0x00"
  by code_simp

lemma length_wordToStr: "length (DNS_wordToStr w) = 2"
  by (simp add: DNS_wordToStr_def DNS_octetToStr_def)

lemma charCodeAt_append:
  "charCodeAt (pre @ c # rest) (Num (int (length pre))) = Num (of_char c)"
  by (simp add: charCodeAt_def)

lemma substr_append:
  "substr (pre @ p @ rest) (Num (int (length pre))) (Num (int (length p))) = p"
  by (simp add: substr_def)

lemma readDomain_while_labels:
  assumes "\<forall>p \<in> set ps. 1 \<le> length p \<and> length p \<le> 63" and "length ps < ctr"
  shows "readDomain_while stack ctr (pre @ query_hostparts ps @ CHR 0x00 # post)
           (Num (int (length pre))) acc =
         Some (add_labels acc ps, Num (int (length pre + length (query_hostparts ps) + 1)))"
  using assms
proof (induction ps arbitrary: ctr pre acc)
  case Nil
  then obtain c where "ctr = Suc c" by (cases ctr) auto
  then show ?case
    by (simp add: charCodeAt_append)
next
  case (Cons p ps)
  from Cons.prems obtain c where ctr: "ctr = Suc c" and c: "length ps < c"
    by (cases ctr) auto
  from Cons.prems have len: "1 \<le> length p" "length p \<le> 63" by simp_all
  define str where "str = pre @ query_hostparts (p # ps) @ CHR 0x00 # post"
  define pre' where "pre' = pre @ char_of (length p) # p"
  define acc' where "acc' = (if acc \<noteq> [] then acc @ ''.'' else acc) @ p"
  have str: "str = pre' @ query_hostparts ps @ CHR 0x00 # post"
    by (simp add: str_def pre'_def DNS_octetToStr_def)
  have l: "charCodeAt str (Num (int (length pre))) = Num (int (length p))"
    using len charCodeAt_append [of pre "char_of (length p)"]
    by (simp add: str_def DNS_octetToStr_def of_char_char_of_nat)
  have i1: "js_add (Num (int (length pre))) (Num 1) = Num (int (length (pre @ [char_of (length p)])))"
    by simp
  have s: "substr str (js_add (Num (int (length pre))) (Num 1)) (Num (int (length p))) = p"
    unfolding i1
    using substr_append [of "pre @ [char_of (length p)]" p "query_hostparts ps @ CHR 0x00 # post"]
    by (simp add: str_def DNS_octetToStr_def)
  have i2: "js_add (js_add (Num (int (length pre))) (Num 1)) (Num (int (length p))) =
            Num (int (length pre'))"
    by (simp add: pre'_def)
  have shr: "js_shr (Num (int (length p))) 6 \<noteq> Num 3"
    using len by (simp add: js_shr_def)
  have nz: "Num (int (length p)) \<noteq> Num 0"
    using len by auto
  have ih: "readDomain_while stack c str (Num (int (length pre'))) acc' =
            Some (add_labels acc' ps, Num (int (length pre' + length (query_hostparts ps) + 1)))"
    unfolding str using Cons.prems(1) c by (intro Cons.IH) simp_all
  have step: "readDomain_while stack (Suc c) str (Num (int (length pre))) acc =
              readDomain_while stack c str (Num (int (length pre'))) acc'"
    by (simp only: readDomain_while.simps Let_def l s i2 shr nz if_False acc'_def)
  have res: "add_labels acc' ps = add_labels acc (p # ps)"
    "length pre' + length (query_hostparts ps) + 1 = length pre + length (query_hostparts (p # ps)) + 1"
    by (simp_all add: acc'_def pre'_def DNS_octetToStr_def)
  show ?case
    unfolding ctr str_def [symmetric] step ih res ..
qed


lemma strToWord_wordToStr:
  "w < 65536 \<Longrightarrow> DNS_strToWord (DNS_wordToStr w) = Num (int w)"
proof -
  assume w: "w < 65536"
  then have hi: "w div 256 < 256" by simp
  have "w mod 256 + w div 256 * 256 = w"
    by simp
  then have "int (w mod 256) + int (w div 256) * 256 = int w"
    by (metis of_nat_add of_nat_mult of_nat_numeral)
  moreover have "w div 256 mod 256 = w div 256"
    using hi by simp
  ultimately show ?thesis
    by (simp add: DNS_strToWord_def DNS_wordToStr_def DNS_octetToStr_def charCodeAt_def js_shl_def
          of_char_char_of_mod)
qed

lemma substr_word:
  "length w = 2 \<Longrightarrow> substr (pre @ w @ rest) (Num (int (length pre))) (Num 2) = w"
  by (simp add: substr_def)

lemma query_type_values: "query_type recordtype = Some t \<Longrightarrow> t < 65536"
  by (auto simp: query_type_def split: if_splits)

lemma query_type_inj:
  "query_type recordtype = Some t \<Longrightarrow> query_type r = Some t \<Longrightarrow> r = recordtype"
  by (auto simp: query_type_def split: if_splits)

text \<open>
  C4, as stated, fails: \<open>C4_host\<close> has 20 labels of one byte each, and decoding the
  question of its query gives the name but the type 0 and the class 256 instead of the
  type 1 and the class 1. The loop of \<open>DNS_readDomain\<close> runs 20 times, so after 20 labels
  it stops before the terminating zero, which is then read as the first byte of the type.
\<close>

theorem C4_twenty_labels_counterexample:
  "map length (js_split CHR ''.'' C4_host) =
     [1, 1, 1, 1, 1, 1, 1, 1, 1, 1, 1, 1, 1, 1, 1, 1, 1, 1, 1, 1] \<and>
   query_type ''A'' = Some 1 \<and>
   build_query C4_host ''A'' = Inr C4_query \<and>
   getRDData_question 0 (drop 2 C4_query) (Num 12) = Some (C4_host, Num 0, Num 256, Num 56)"
  by code_simp

text \<open>
  C4, amended: for every host name of at most 19 dot-separated labels of 1 to 63 bytes
  and every supported record type, the query is built, and decoding the question of the
  message (the query without its length prefix) at offset 12 gives the host name, the
  code \<open>t\<close> of the record type, the class 1, and leaves the index at the end of the
  message; no other record type has the code \<open>t\<close>.
\<close>

theorem C4_question_roundtrip:
  assumes "\<forall>p \<in> set (js_split CHR ''.'' hostname). 1 \<le> length p \<and> length p \<le> 63"
    and "length (js_split CHR ''.'' hostname) \<le> 19"
    and "query_type recordtype = Some t"
  shows "\<exists>query. build_query hostname recordtype = Inr query \<and>
           getRDData_question stack (drop 2 query) (Num 12) =
             Some (hostname, Num (int t), Num 1, Num (int (length query) - 2)) \<and>
           (\<forall>r. query_type r = Some t \<longrightarrow> r = recordtype)"
proof -
  define ps where "ps = js_split CHR ''.'' hostname"
  define hd12 where "hd12 = ''00'' @ [char_of (1::nat)] @ [char_of (0::nat)] @
                  DNS_wordToStr 1 @ DNS_wordToStr 0 @ DNS_wordToStr 0 @ DNS_wordToStr 0"
  define tail where "tail = DNS_wordToStr t @ DNS_wordToStr 1"
  define msg where "msg = hd12 @ query_hostparts ps @ CHR 0x00 # tail"
  have len12: "length hd12 = 12"
    by (simp add: length_wordToStr hd12_def)
  have q: "build_query hostname recordtype = Inr (DNS_wordToStr (length msg) @ msg)"
    by (simp add: length_wordToStr build_query_def assms(3) Let_def msg_def hd12_def tail_def ps_def
          DNS_octetToStr_def char_of_zero)
  have d: "drop 2 (DNS_wordToStr (length msg) @ msg) = msg"
    by (simp add: length_wordToStr)
  have ne: "\<forall>p \<in> set ps. p \<noteq> []"
    using assms(1) by (auto simp: ps_def)
  have name: "add_labels [] ps = hostname"
    using add_labels_join [OF ne] join_dot_split [of hostname] by (simp add: js_split_not_Nil ps_def)
  have rd: "DNS_readDomain stack msg (Num 12) =
              Some (hostname, Num (int (12 + length (query_hostparts ps) + 1)))"
    using readDomain_while_labels [of ps 20 stack hd12 tail "[]"] assms(1,2)
    by (simp add: length_wordToStr DNS_readDomain_def msg_def len12 name ps_def [symmetric])
  define pre1 where "pre1 = hd12 @ query_hostparts ps @ [CHR 0x00]"
  have l1: "int (length pre1) = int (12 + length (query_hostparts ps) + 1)"
    by (simp add: length_wordToStr pre1_def len12)
  have ty: "DNS_strToWord (substr msg (Num (int (12 + length (query_hostparts ps) + 1))) (Num 2)) =
              Num (int t)"
    using substr_word [of "DNS_wordToStr t" pre1 "DNS_wordToStr 1"]
      strToWord_wordToStr [of t] query_type_values [OF assms(3)]
    by (simp add: length_wordToStr msg_def tail_def pre1_def len12)
  define pre2 where "pre2 = pre1 @ DNS_wordToStr t"
  have cl: "DNS_strToWord (substr msg (Num (int (12 + length (query_hostparts ps) + 1) + 2)) (Num 2)) =
              Num 1"
    using substr_word [of "DNS_wordToStr 1" pre2 "[]"] strToWord_wordToStr [of 1]
    by (simp add: length_wordToStr msg_def tail_def pre1_def pre2_def len12)
  have ln: "int (12 + length (query_hostparts ps) + 1) + 2 + 2 =
              int (length (DNS_wordToStr (length msg) @ msg)) - 2"
    by (simp add: length_wordToStr msg_def tail_def len12)
  have "getRDData_question stack msg (Num 12) =
          Some (hostname, Num (int t), Num 1, Num (int (length (DNS_wordToStr (length msg) @ msg)) - 2))"
    unfolding getRDData_question_def rd
    by (simp only: option.case prod.case Let_def js_add.simps ty cl ln)
  with q d query_type_inj [OF assms(3)] show ?thesis
    by auto
qed

theorem C4_question_roundtrip_witness:
  "js_split CHR ''.'' ''example.org'' = [''example'', ''org''] \<and>
   query_type ''MX'' = Some 15 \<and>
   (\<exists>query. build_query ''example.org'' ''MX'' = Inr query \<and>
      getRDData_question 0 (drop 2 query) (Num 12) =
        Some (''example.org'', Num 15, Num 1, Num (int (length query) - 2)))"
proof -
  have s: "js_split CHR ''.'' ''example.org'' = [''example'', ''org'']"
    by code_simp
  have h1: "\<forall>p \<in> set (js_split CHR ''.'' ''example.org''). 1 \<le> length p \<and> length p \<le> 63"
    by (simp add: s)
  have h2: "length (js_split CHR ''.'' ''example.org'') \<le> 19"
    by (simp add: s)
  have h3: "query_type ''MX'' = Some 15"
    by (simp add: query_type_def)
  show ?thesis
    using C4_question_roundtrip [OF h1 h2 h3, of 0] s h3 by auto
qed

subsection \<open>The cursor after a record\<close>

lemma strToWord_two:
  "2 \<le> length s \<Longrightarrow> DNS_strToWord s = Num (of_char (s ! 1) + of_char (s ! 0) * 256)"
  by (auto simp: DNS_strToWord_def charCodeAt_def js_shl_def)

lemma readDomain_while_label:
  assumes "1 \<le> length p" and "length p \<le> 63"
    and "str = pre @ char_of (length p) # p @ rest"
  shows "readDomain_while stack (Suc c) str (Num (int (length pre))) acc =
         readDomain_while stack c str (Num (int (length pre + 1 + length p)))
           ((if acc \<noteq> [] then acc @ ''.'' else acc) @ p)"
proof -
  have l: "charCodeAt str (Num (int (length pre))) = Num (int (length p))"
    using assms(2) charCodeAt_append [of pre "char_of (length p)" "p @ rest"]
    by (simp add: assms(3) of_char_char_of_nat)
  have i1: "js_add (Num (int (length pre))) (Num 1) = Num (int (length (pre @ [char_of (length p)])))"
    by simp
  have s: "substr str (js_add (Num (int (length pre))) (Num 1)) (Num (int (length p))) = p"
    unfolding i1
    using substr_append [of "pre @ [char_of (length p)]" p rest]
    by (simp add: assms(3))
  have i2: "js_add (js_add (Num (int (length pre))) (Num 1)) (Num (int (length p))) =
            Num (int (length pre + 1 + length p))"
    by simp
  have shr: "js_shr (Num (int (length p))) 6 \<noteq> Num 3"
    using assms(2) by (simp add: js_shr_def)
  have nz: "Num (int (length p)) \<noteq> Num 0"
    using assms(1) by auto
  show ?thesis
    by (simp only: readDomain_while.simps Let_def l s i2 shr nz if_False)
qed

lemma readDomain_while_terminator:
  "readDomain_while stack (Suc c) (pre @ CHR 0x00 # post) (Num (int (length pre))) acc =
     Some (acc, Num (int (length pre + 1)))"
  by (simp add: charCodeAt_append)

lemma readDomain_while_pointer:
  assumes "192 \<le> (of_char a :: nat)"
    and "DNS_readDomain stack str (Num (int (of_char a mod 64 * 256 + of_char b))) \<noteq> None"
    and "str = pre @ a # b # post"
  shows "\<exists>name. readDomain_while (Suc stack) (Suc c) str (Num (int (length pre))) acc =
           Some (name, Num (int (length pre + 2)))"
proof -
  have l: "charCodeAt str (Num (int (length pre))) = Num (of_char a)"
    by (simp add: assms(3) charCodeAt_append)
  have i1: "js_add (Num (int (length pre))) (Num 1) = Num (int (length (pre @ [a])))"
    by simp
  have l2: "charCodeAt str (js_add (Num (int (length pre))) (Num 1)) = Num (of_char b)"
    unfolding i1 using charCodeAt_append [of "pre @ [a]" b post] by (simp add: assms(3))
  have lt: "(of_char a :: nat) < 256"
    by (rule nat_of_char_less_256)
  have a_int: "(of_char a :: int) = int (of_char a)"
    by (simp add: of_nat_of_char)
  have ia: "192 \<le> (of_char a :: int) \<and> (of_char a :: int) < 256"
    unfolding a_int using assms(1) lt by arith
  then have d: "(of_char a :: int) div 64 = 3"
    by arith
  have shr: "js_shr (Num (of_char a)) 6 = Num 3"
    using d by (simp add: js_shr_def)
  have nz: "Num (of_char a :: int) \<noteq> Num 0"
    using ia by simp
  have "int (of_char a mod 64 * 256 + of_char b) = (of_char a :: int) mod 64 * 256 + of_char b"
    by (simp add: zmod_int of_nat_of_char)
  then have ptr: "js_add (js_shl (js_and63 (Num (of_char a))) 8) (Num (of_char b)) =
             Num (int (of_char a mod 64 * 256 + of_char b))"
    by (simp add: js_shl_def js_and63_def)
  from assms(2) obtain name2 i2 where
    n: "readDomain_while stack 20 str (Num (int (of_char a mod 64 * 256 + of_char b))) [] =
          Some (name2, i2)"
    by (auto simp: DNS_readDomain_def)
  have i2': "js_add (js_add (Num (int (length pre))) (Num 1)) (Num 1) = Num (int (length pre + 2))"
    by simp
  show ?thesis
    by (simp only: readDomain_while.simps Let_def l l2 shr nz ptr n i2' if_False if_True
          nat.case option.case prod.case) simp
qed

lemma readDomain_while_end:
  assumes "\<forall>p \<in> set ps. 1 \<le> length p \<and> length p \<le> 63" and "length ps < ctr"
    and "name_end stack str t" and "str = pre @ query_hostparts ps @ t @ post"
  shows "\<exists>name. readDomain_while stack ctr str (Num (int (length pre))) acc =
           Some (name, Num (int (length pre + length (query_hostparts ps) + length t)))"
  using assms(1,2,4)
proof (induction ps arbitrary: ctr pre acc)
  case Nil
  then obtain c where ctr: "ctr = Suc c" by (cases ctr) auto
  from assms(3) consider (zero) "t = [CHR 0x00]"
    | (pointer) a b s where "t = [a, b]" "192 \<le> (of_char a :: nat)" "stack = Suc s"
        "DNS_readDomain s str (Num (int (of_char a mod 64 * 256 + of_char b))) \<noteq> None"
  proof (cases "t = [CHR 0x00]")
    case True
    then show ?thesis using that by simp
  next
    case False
    with assms(3) have l: "length t = 2" and a: "192 \<le> (of_char (t ! 0) :: nat)"
      and s: "stack \<noteq> 0"
      and d: "DNS_readDomain (stack - 1) str
         (Num (int (of_char (t ! 0) mod 64 * 256 + of_char (t ! 1)))) \<noteq> None"
      by (simp_all add: name_end_def)
    from l obtain a' b' where t: "t = [a', b']"
      by (cases t; cases "tl t") auto
    from s obtain s' where "stack = Suc s'" by (cases stack) auto
    with t a d that(2) [of a' b' s'] show ?thesis by simp
  qed
  then show ?case
  proof cases
    case zero
    with Nil.prems ctr show ?thesis
      using readDomain_while_terminator [of stack c pre post acc] by simp
  next
    case pointer
    with Nil.prems have "str = pre @ a # b # post" by simp
    from readDomain_while_pointer [OF pointer(2,4) this, of c acc] pointer(1,3) ctr
    show ?thesis by simp
  qed
next
  case (Cons p ps)
  from Cons.prems obtain c where ctr: "ctr = Suc c" and c: "length ps < c"
    by (cases ctr) auto
  from Cons.prems have len: "1 \<le> length p" "length p \<le> 63" by simp_all
  have str1: "str = pre @ char_of (length p) # p @ (query_hostparts ps @ t @ post)"
    using Cons.prems(3) by (simp add: DNS_octetToStr_def)
  have str2: "str = (pre @ char_of (length p) # p) @ query_hostparts ps @ t @ post"
    using str1 by simp
  from Cons.IH [OF _ c str2, of "(if acc \<noteq> [] then acc @ ''.'' else acc) @ p"] Cons.prems(1)
  obtain name where
    ih: "readDomain_while stack c str (Num (int (length (pre @ char_of (length p) # p))))
           ((if acc \<noteq> [] then acc @ ''.'' else acc) @ p) =
         Some (name, Num (int (length (pre @ char_of (length p) # p) + length (query_hostparts ps) +
                               length t)))"
    by auto
  have e1: "length (pre @ char_of (length p) # p) = length pre + 1 + length p" by simp
  have e2: "length pre + 1 + length p + length (query_hostparts ps) + length t =
            length pre + length (query_hostparts (p # ps)) + length t"
    by (simp add: DNS_octetToStr_def)
  show ?case
    unfolding ctr readDomain_while_label [OF len str1]
    using ih unfolding e1 e2 by blast
qed

lemma readRec_rdata_returns:
  "rdata_decodes stack str ty idx \<Longrightarrow> rec_type r = TypeNum ty \<Longrightarrow>
   \<exists>r' i. readRec_rdata stack str idx r = Some (r', i)"
  by (auto simp: readRec_rdata_def rdata_decodes_def Let_def split: prod.splits if_splits)

lemma readRec_after_name:
  assumes "DNS_readDomain stack str idx = Some (d, idx0)"
    and "rdata_decodes stack str (DNS_strToWord (substr str idx0 (Num 2))) (js_add idx0 (Num 10))"
  shows "\<exists>r. DNS_readRec stack str idx =
           Some (r, js_add (js_add idx0 (Num 10))
                      (DNS_strToWord (substr str (js_add idx0 (Num 8)) (Num 2))))"
proof -
  define r0 where "r0 = \<lparr>rec_dom = d, rec_type = TypeNum (DNS_strToWord (substr str idx0 (Num 2))),
       rec_cls = DNS_strToWord (substr str (js_add idx0 (Num 2)) (Num 2)),
       rec_ttl = DNS_strToWord (substr str (js_add idx0 (Num 4)) (Num 2)),
       rec_rdlen = DNS_strToWord (substr str (js_add idx0 (Num 8)) (Num 2)),
       rec_recognized = True, rec_rddata = RD_undefined\<rparr>"
  have "rec_type r0 = TypeNum (DNS_strToWord (substr str idx0 (Num 2)))"
    by (simp add: r0_def)
  from readRec_rdata_returns [OF assms(2) this] obtain r' i where
    "readRec_rdata stack str (js_add idx0 (Num 10)) r0 = Some (r', i)"
    by blast
  then show ?thesis
    using assms(1)
    by (simp add: DNS_readRec_def Let_def js_add_Num_Num r0_def)
qed

text \<open>
  C10, as stated, fails: \<open>C10_message\<close> holds at offset 19 a record of 55 bytes whose
  owner name has 20 labels, so the record ends at offset 74, where the message ends.
  \<open>DNS_readDomain\<close> stops after 20 labels, before the zero byte of the name; the fixed
  fields are read one byte early, RDLENGTH is read as 15360 instead of 4, and
  \<open>DNS_readRec\<close> leaves the cursor at 15429.
\<close>

theorem C10_twenty_labels_counterexample:
  "C10_message = take 19 S_answer @ C10_record \<and>
   length (take 19 S_answer) = 19 \<and> length C10_record = 55 \<and>
   DNS_readRec 0 C10_message (Num 19) =
     Some (\<lparr>rec_dom = C4_host, rec_type = TypeNum (Num 0), rec_cls = Num 256,
             rec_ttl = Num 256, rec_rdlen = Num 15360, rec_recognized = False,
             rec_rddata = RD_undefined\<rparr>, Num 15429)"
  by code_simp

text \<open>
  C10, amended: take a record at offset \<open>length pre\<close> of a message \<open>str\<close>, made of an owner
  name of at most 19 labels of 1 to 63 bytes that ends with the zero byte or with a
  pointer to a name that is decoded, the 10 bytes \<open>fixed\<close> of type, class, TTL and
  RDLENGTH, and the data. If the names in the data of an MX, NS or PTR record are decoded,
  then \<open>DNS_readRec\<close> returns a record and leaves the cursor at the end of the record: the
  offset plus the length of the name, plus 10, plus the RDLENGTH written in bytes 8 and 9
  of \<open>fixed\<close>. The type is arbitrary, recognized or not, and so are the data and what
  their decoding consumes.
\<close>

theorem C10_record_cursor:
  assumes "\<forall>p \<in> set ps. 1 \<le> length p \<and> length p \<le> 63" and "length ps \<le> 19"
    and "name_end stack str t"
    and "length fixed = 10"
    and "str = pre @ query_hostparts ps @ t @ fixed @ rest"
    and "rdata_decodes stack str (DNS_strToWord (take 2 fixed))
           (Num (int (length pre + length (query_hostparts ps) + length t + 10)))"
  shows "\<exists>r. DNS_readRec stack str (Num (int (length pre))) =
           Some (r, Num (int (length pre + length (query_hostparts ps) + length t + 10 +
                              (of_char (fixed ! 8) * 256 + of_char (fixed ! 9)))))"
proof -
  define k where "k = length pre + length (query_hostparts ps) + length t"
  define front where "front = pre @ query_hostparts ps @ t"
  have str: "str = front @ fixed @ rest" and fl: "length front = k"
    by (simp_all add: front_def k_def assms(5))
  from assms(2) have "length ps < 20" by simp
  from readDomain_while_end [OF assms(1) this assms(3), of pre "fixed @ rest" "[]"] assms(5)
  obtain name where n: "DNS_readDomain stack str (Num (int (length pre))) = Some (name, Num (int k))"
    by (auto simp: DNS_readDomain_def k_def)
  have ty: "substr str (Num (int k)) (Num 2) = take 2 fixed"
    using assms(4) by (simp add: substr_def str fl)
  have rl: "substr str (js_add (Num (int k)) (Num 8)) (Num 2) = drop 8 fixed"
    using assms(4) by (simp add: substr_def str fl nat_add_distrib)
  have w: "DNS_strToWord (drop 8 fixed) = Num (int (of_char (fixed ! 8) * 256 + of_char (fixed ! 9)))"
    using assms(4) strToWord_two [of "drop 8 fixed"] by (simp add: of_nat_of_char)
  have rd: "rdata_decodes stack str (DNS_strToWord (substr str (Num (int k)) (Num 2)))
              (js_add (Num (int k)) (Num 10))"
    unfolding ty using assms(6) by (simp add: k_def)
  from readRec_after_name [OF n rd] obtain r where
    "DNS_readRec stack str (Num (int (length pre))) =
       Some (r, js_add (js_add (Num (int k)) (Num 10))
                  (DNS_strToWord (substr str (js_add (Num (int k)) (Num 8)) (Num 2))))"
    by blast
  then show ?thesis
    unfolding rl w by (simp add: k_def)
qed

theorem C10_record_cursor_witness:
  "C10_example =
     take 19 S_answer @ query_hostparts [''mx''] @ [CHR 0xC0, CHR 0x0C] @
     [CHR 0x00, CHR 0x0F, CHR 0x00, CHR 0x01, CHR 0x00, CHR 0x00, CHR 0x00, CHR 0x3C,
      CHR 0x00, CHR 0x04] @ [CHR 0x00, CHR 0x0A, CHR 0xC0, CHR 0x13] \<and>
   name_end 5 C10_example [CHR 0xC0, CHR 0x0C] \<and>
   rdata_decodes 5 C10_example (Num 15) (Num 34) \<and>
   DNS_readRec 5 C10_example (Num 19) =
     Some (\<lparr>rec_dom = ''mx.a'', rec_type = TypeStr ''MX'', rec_cls = Num 1,
             rec_ttl = Num 0, rec_rdlen = Num 4, rec_recognized = True,
             rec_rddata = RD_mx \<lparr>preference = Num 10, host = ''mx.a'', address = Undefined\<rparr>\<rparr>,
           Num 38) \<and>
   (\<exists>r. DNS_readRec 5 C10_example (Num 19) = Some (r, Num 38))"
proof -
  have h1: "\<forall>p \<in> set [''mx'']. 1 \<le> length p \<and> length p \<le> 63" by simp
  have h2: "length [''mx''] \<le> 19" by simp
  have h3: "name_end 5 C10_example [CHR 0xC0, CHR 0x0C]" by code_simp
  have h4: "length [CHR 0x00, CHR 0x0F, CHR 0x00, CHR 0x01, CHR 0x00, CHR 0x00, CHR 0x00, CHR 0x3C,
      CHR 0x00, CHR 0x04] = 10" by simp
  have h5: "C10_example =
     take 19 S_answer @ query_hostparts [''mx''] @ [CHR 0xC0, CHR 0x0C] @
     [CHR 0x00, CHR 0x0F, CHR 0x00, CHR 0x01, CHR 0x00, CHR 0x00, CHR 0x00, CHR 0x3C,
      CHR 0x00, CHR 0x04] @ [CHR 0x00, CHR 0x0A, CHR 0xC0, CHR 0x13]"
    by code_simp
  have h6: "rdata_decodes 5 C10_example (Num 15) (Num 34)" by code_simp
  have h6': "rdata_decodes 5 C10_example
      (DNS_strToWord (take 2 [CHR 0x00, CHR 0x0F, CHR 0x00, CHR 0x01, CHR 0x00, CHR 0x00, CHR 0x00,
         CHR 0x3C, CHR 0x00, CHR 0x04]))
      (Num (int (length (take 19 S_answer) + length (query_hostparts [''mx'']) +
                 length [CHR 0xC0, CHR 0x0C] + 10)))"
    by code_simp
  have v: "DNS_readRec 5 C10_example (Num 19) =
     Some (\<lparr>rec_dom = ''mx.a'', rec_type = TypeStr ''MX'', rec_cls = Num 1,
             rec_ttl = Num 0, rec_rdlen = Num 4, rec_recognized = True,
             rec_rddata = RD_mx \<lparr>preference = Num 10, host = ''mx.a'', address = Undefined\<rparr>\<rparr>,
           Num 38)"
    by code_simp
  have n: "int (length (take 19 S_answer)) = 19"
    "int (length (take 19 S_answer) + length (query_hostparts [''mx'']) +
          length [CHR 0xC0, CHR 0x0C] + 10 +
          (of_char ([CHR 0x00, CHR 0x0F, CHR 0x00, CHR 0x01, CHR 0x00, CHR 0x00, CHR 0x00,
              CHR 0x3C, CHR 0x00, CHR 0x04] ! 8) * 256 +
           of_char ([CHR 0x00, CHR 0x0F, CHR 0x00, CHR 0x01, CHR 0x00, CHR 0x00, CHR 0x00,
              CHR 0x3C, CHR 0x00, CHR 0x04] ! 9))) = 38"
    by code_simp+
  from C10_record_cursor [OF h1 h2 h3 h4 h5 h6'] have
    "\<exists>r. DNS_readRec 5 C10_example (Num 19) = Some (r, Num 38)"
    unfolding n .
  with h3 h5 h6 v show ?thesis by blast
qed

section \<open>Properties of the listener\<close>

lemma process_header_eq:
  "process_header h d = (h @ take (14 - length h) d, drop (14 - length h) d)"
proof (induction h d rule: process_header.induct)
  case (1 h)
  show ?case by simp
next
  case (2 h c cs)
  show ?case
  proof (cases "length h < 14")
    case True
    then have "14 - length h = Suc (14 - length (h @ [c]))" by simp
    with True 2 show ?thesis by simp
  next
    case False
    then show ?thesis by simp
  qed
qed

lemma process_done: "isdone L \<Longrightarrow> process L d = (L, False, None)"
  by (simp add: process_def)

lemma process_pending:
  assumes "pending L" and "process L d = (L', b, m)"
  shows "(m \<noteq> None \<longrightarrow> isdone L') \<and> (m = None \<longrightarrow> b \<and> pending L')"
proof -
  define h where "h = responseHeader L @ take (14 - length (responseHeader L)) d"
  have ph: "process_header (responseHeader L) d = (h, drop (14 - length (responseHeader L)) d)"
    by (simp add: process_header_eq h_def)
  have len: "length h \<le> 14"
    using assms(1) by (auto simp: h_def pending_def min_def)
  show ?thesis
    using assms len
    by (auto simp: process_def pending_def Let_def ph split: if_splits)
qed

lemma process_pending_empty:
  assumes "pending L"
  shows "\<exists>L'. process L [] = (L', True, None) \<and> \<not> isdone L'"
  using assms by (auto simp: process_def pending_def Let_def)

lemma onDataAvailable_inv:
  "pending L \<or> isdone L \<Longrightarrow> onDataAvailable L chunks = (L', m) \<Longrightarrow>
   (m \<noteq> None \<longrightarrow> isdone L') \<and> (pending L' \<or> isdone L')"
proof (induction chunks arbitrary: L)
  case Nil
  then show ?case by auto
next
  case (Cons d ds)
  show ?case
  proof (cases "isdone L")
    case True
    with Cons.prems show ?thesis by (auto simp: process_done)
  next
    case False
    with Cons.prems have p: "pending L" by simp
    obtain L1 b m1 where pr: "process L d = (L1, b, m1)" by (cases "process L d") auto
    from process_pending [OF p pr] have
      a: "m1 \<noteq> None \<longrightarrow> isdone L1" and c: "m1 = None \<longrightarrow> b \<and> pending L1" by simp_all
    show ?thesis
    proof (cases m1)
      case None
      with c have "b" "pending L1" by simp_all
      with Cons.prems(2) pr None have "onDataAvailable L1 ds = (L', m)" by simp
      from Cons.IH [OF _ this] \<open>pending L1\<close> show ?thesis by simp
    next
      case (Some msg)
      with a Cons.prems(2) pr show ?thesis by (auto split: bool.splits)
    qed
  qed
qed

lemma finished_cases:
  "pending L \<or> isdone L \<Longrightarrow>
   finished L status = (if status \<noteq> 0 then Failed status else if isdone L then Nothing else Incomplete)"
  using process_pending_empty [of L]
  by (auto simp: finished_def process_done)

lemma new_listener_pending: "pending new_listener"
  by (simp add: pending_def new_listener_def)

lemma connection_cases:
  "\<exists>L m. onDataAvailable new_listener chunks = (L, m) \<and> (m \<noteq> None \<longrightarrow> isdone L) \<and>
     connection chunks status =
       (m, if status \<noteq> 0 then Failed status else if isdone L then Nothing else Incomplete)"
proof -
  obtain L m where o: "onDataAvailable new_listener chunks = (L, m)"
    by (cases "onDataAvailable new_listener chunks") auto
  from onDataAvailable_inv [OF _ o] new_listener_pending
  have "m \<noteq> None \<longrightarrow> isdone L" "pending L \<or> isdone L" by simp_all
  with o show ?thesis by (simp add: connection_def finished_cases)
qed

lemma connection_not_Message: "snd (connection chunks status) \<noteq> Message msg"
  using connection_cases [of chunks status] by (auto split: if_splits)

lemma connection_complete:
  "fst (connection chunks status) = Some msg \<Longrightarrow>
   snd (connection chunks status) = (if status \<noteq> 0 then Failed status else Nothing)"
  using connection_cases [of chunks status] by (auto split: if_splits)

lemma connection_status:
  "connection chunks status =
     (fst (connection chunks 0), if status \<noteq> 0 then Failed status else snd (connection chunks 0))"
  using connection_cases [of chunks status] connection_cases [of chunks 0] by (auto split: if_splits)






section \<open>Properties of the resolver\<close>

subsection \<open>Evaluation of the examples\<close>

lemma S_build: "build_query ''a'' ''A'' = Inr C2_query"
  by code_simp

lemma S_conn0:
  "connection [] 0 = (None, Incomplete)"
  "connection [framed S_referral] 0 = (Some S_referral, Nothing)"
  "connection [framed S_referral2] 0 = (Some S_referral2, Nothing)"
  "connection [framed S_answer] 0 = (Some S_answer, Nothing)"
  "connection [take 5 (framed S_answer), drop 5 (framed S_answer)] 0 = (Some S_answer, Nothing)"
  "connection [take 20 (framed S_answer)] 0 = (None, Incomplete)"
  "connection [framed S_unsupported] 0 = (Some S_unsupported, Nothing)"
  by code_simp+

lemma S_conn:
  "connection [] 2152398861 = (None, Failed 2152398861)"
  "connection [framed S_referral] 2152398868 = (Some S_referral, Failed 2152398868)"
  "connection [framed S_unsupported] 2147500037 = (Some S_unsupported, Failed 2147500037)"
  by (simp_all add: connection_status [of _ 2152398861] connection_status [of _ 2152398868]
        connection_status [of _ 2147500037] S_conn0)

lemma S_data:
  "DNS_getRDData 5 S_referral ''8.8.8.8'' = Inr (Recurse ''ns1'')"
  "DNS_getRDData 5 S_referral ''8.8.4.4'' = Inr (Recurse ''ns1'')"
  "DNS_getRDData 5 S_referral ''ns2'' = Inr (Recurse ''ns1'')"
  "DNS_getRDData 5 S_referral2 ''ns1'' = Inr (Recurse ''ns2'')"
  "DNS_getRDData 5 S_answer ''ns1'' = Inr (Deliver [RD_string ''1.2.3.4''])"
  "DNS_getRDData 5 S_answer ''ns2'' = Inr (Deliver [RD_string ''1.2.3.4''])"
  "DNS_getRDData 5 S_answer ''8.8.4.4'' = Inr (Deliver [RD_string ''1.2.3.4''])"
  "DNS_getRDData 5 S_unsupported ''8.8.8.8'' =
     Inl (Throw ''Record type is not one that this library can understand.'')"
  "DNS_getRDData 5 S_unsupported ''ns1'' =
     Inl (Throw ''Record type is not one that this library can understand.'')"
  by code_simp+

lemma S_hosts: "server_hostname ''8.8.8.8'' = ''8.8.8.8''" "server_hostname ''8.8.4.4'' = ''8.8.4.4''"
  "server_hostname ''ns1'' = ''ns1''" "server_hostname ''ns2'' = ''ns2''"
  "server_port ''8.8.8.8'' = PortNum 53"
  "server_port ''8.8.4.4'' = PortNum 53" "server_port ''ns1'' = PortNum 53"
  "server_port ''ns2'' = PortNum 53"
  by code_simp+


lemmas S_eval = queryDNS_def queryDNSRecursive.simps S_pool_def S_pool_failed_def S_query_def S_build
  S_conn0 S_conn S_data S_hosts status_error_def


subsection \<open>The events of one call\<close>

text \<open>
  A call of \<open>queryDNSRecursive\<close> either ends before a query is sent, with one event that
  is not a query, or it sends a query to the server chosen. When data arrives, the events
  after the query are those of the data and then those of the stop.
\<close>

lemma lookup_cases:
  "(\<exists>ev. \<not> is_Query ev \<and>
         queryDNSRecursive nsto net stack server0 hostname recordtype hops servers = ([ev], servers)) \<or>
   (\<exists>srv entry query. chosen server0 servers srv entry \<and> hops \<noteq> 10 \<and>
         build_query hostname recordtype = Inr query)"
  by (auto simp: queryDNSRecursive.simps [of _ net] chosen_def
           split: option.splits sum.splits)

lemma lookup_silent:
  assumes "chosen server0 servers srv entry" and "hops \<noteq> 10"
    and "build_query hostname recordtype = Inr query"
    and "net = Silent \<or> net = SocketException"
  shows "queryDNSRecursive nsto net stack server0 hostname recordtype hops servers =
           ([Query srv entry hops (server_hostname srv) (server_port srv) query], servers)"
  using assms
  by (auto simp: queryDNSRecursive.simps [of _ net] chosen_def split: option.splits)

lemma lookup_stream:
  assumes "chosen server0 servers srv entry" and "hops \<noteq> 10"
    and "build_query hostname recordtype = Inr query"
  shows "\<exists>dat stp.
     queryDNSRecursive nsto (Stream chunks status net1 net2) stack server0 hostname recordtype hops
       servers =
       (Query srv entry hops (server_hostname srv) (server_port srv) query # dat @ fst stp, snd stp) \<and>
     (fst (connection chunks status) = None \<and> dat = [] \<or>
      (\<exists>msg e. fst (connection chunks status) = Some msg \<and>
           DNS_getRDData stack msg srv = Inl e \<and> dat = [Uncaught e]) \<or>
      (\<exists>msg r. fst (connection chunks status) = Some msg \<and>
           DNS_getRDData stack msg srv = Inr (Deliver r) \<and> dat = [Callback (Some r) None]) \<or>
      (\<exists>msg. fst (connection chunks status) = Some msg \<and>
           DNS_getRDData stack msg srv = Inr NoAnswer \<and> dat = [Callback None None]) \<or>
      (\<exists>msg ns. fst (connection chunks status) = Some msg \<and>
           DNS_getRDData stack msg srv = Inr (Recurse ns) \<and>
           dat = fst (queryDNSRecursive nsto net1 stack (Some ns) hostname recordtype (hops + 1) None))) \<and>
     (status = 0 \<and> fst (connection chunks status) \<noteq> None \<and> stp = ([], servers) \<or>
      status = 0 \<and> fst (connection chunks status) = None \<and>
        (stp = ([], servers) \<or> stp = ([Callback None (Some (INCOMPLETE_RESPONSE srv))], servers)) \<or>
      status \<noteq> 0 \<and> servers = None \<and> entry = None \<and>
        stp = ([Callback None (Some (status_error nsto status srv))], servers) \<or>
      (\<exists>ss i. status \<noteq> 0 \<and> servers = Some ss \<and> entry = Some i \<and> next_alive 0 ss = Some i \<and>
         stp = queryDNSRecursive nsto net2 stack None hostname recordtype hops
                 (Some (ss[i := (ss ! i)\<lparr>alive := False\<rparr>]))))"
proof -
  from connection_cases [of chunks status] obtain L :: listener and m where
    conn0: "connection chunks status =
       (m, if status \<noteq> 0 then Failed status else if isdone L then Nothing else Incomplete)"
    and dn: "m \<noteq> None \<longrightarrow> isdone L"
    by blast
  define stop where "stop = (if status \<noteq> 0 then Failed status else if isdone L then Nothing else Incomplete)"
  have conn: "connection chunks status = (m, stop)"
    by (simp add: conn0 stop_def)
  define dat where "dat =
     (case m of
        None \<Rightarrow> []
      | Some msg \<Rightarrow>
          (case DNS_getRDData stack msg srv of
             Inl e \<Rightarrow> [Uncaught e]
           | Inr (Deliver results) \<Rightarrow> [Callback (Some results) None]
           | Inr (Recurse ns) \<Rightarrow>
               fst (queryDNSRecursive nsto net1 stack (Some ns) hostname recordtype (hops + 1) None)
           | Inr NoAnswer \<Rightarrow> [Callback None None]))"
  define stp where "stp =
     (case stop of
        Failed st \<Rightarrow>
          (case (servers, entry) of
             (Some ss, Some i) \<Rightarrow>
               queryDNSRecursive nsto net2 stack None hostname recordtype hops
                 (Some (ss[i := (ss ! i)\<lparr>alive := False\<rparr>]))
           | _ \<Rightarrow> ([Callback None (Some (status_error nsto st srv))], servers))
      | Incomplete \<Rightarrow> ([Callback None (Some (INCOMPLETE_RESPONSE srv))], servers)
      | Nothing \<Rightarrow> ([], servers)
      | Message msg \<Rightarrow>
          ((case DNS_getRDData stack msg srv of
              Inl e \<Rightarrow> [Uncaught e]
            | Inr (Deliver results) \<Rightarrow> [Callback (Some results) None]
            | Inr (Recurse ns) \<Rightarrow>
                fst (queryDNSRecursive nsto net2 stack (Some ns) hostname recordtype (hops + 1) None)
            | Inr NoAnswer \<Rightarrow> [Callback None None]),
           servers))"
  have sel: "(case servers of
              None \<Rightarrow> Some (server0, None)
            | Some ss \<Rightarrow>
                (case next_alive 0 ss of
                   None \<Rightarrow> None
                 | Some i \<Rightarrow> Some (Some (server (ss ! i)), Some i))) = Some (Some srv, entry)"
    using assms(1) by (auto simp: chosen_def split: option.splits)
  have eq: "queryDNSRecursive nsto (Stream chunks status net1 net2) stack server0 hostname recordtype
       hops servers =
       (Query srv entry hops (server_hostname srv) (server_port srv) query # dat @ fst stp, snd stp)"
    unfolding queryDNSRecursive.simps [of _ "Stream chunks status net1 net2"] sel
    using assms(2,3)
    by (simp add: conn dat_def stp_def Let_def)
  have d: "fst (connection chunks status) = None \<and> dat = [] \<or>
      (\<exists>msg e. fst (connection chunks status) = Some msg \<and>
           DNS_getRDData stack msg srv = Inl e \<and> dat = [Uncaught e]) \<or>
      (\<exists>msg r. fst (connection chunks status) = Some msg \<and>
           DNS_getRDData stack msg srv = Inr (Deliver r) \<and> dat = [Callback (Some r) None]) \<or>
      (\<exists>msg. fst (connection chunks status) = Some msg \<and>
           DNS_getRDData stack msg srv = Inr NoAnswer \<and> dat = [Callback None None]) \<or>
      (\<exists>msg ns. fst (connection chunks status) = Some msg \<and>
           DNS_getRDData stack msg srv = Inr (Recurse ns) \<and>
           dat = fst (queryDNSRecursive nsto net1 stack (Some ns) hostname recordtype (hops + 1) None))"
  proof (cases m)
    case None
    then show ?thesis by (simp add: conn dat_def)
  next
    case (Some msg)
    show ?thesis
    proof (cases "DNS_getRDData stack msg srv")
      case (Inl e)
      with Some show ?thesis by (simp add: conn dat_def)
    next
      case (Inr a)
      with Some show ?thesis by (cases a) (simp_all add: conn dat_def)
    qed
  qed
  have s: "status = 0 \<and> fst (connection chunks status) \<noteq> None \<and> stp = ([], servers) \<or>
      status = 0 \<and> fst (connection chunks status) = None \<and>
        (stp = ([], servers) \<or> stp = ([Callback None (Some (INCOMPLETE_RESPONSE srv))], servers)) \<or>
      status \<noteq> 0 \<and> servers = None \<and> entry = None \<and>
        stp = ([Callback None (Some (status_error nsto status srv))], servers) \<or>
      (\<exists>ss i. status \<noteq> 0 \<and> servers = Some ss \<and> entry = Some i \<and> next_alive 0 ss = Some i \<and>
         stp = queryDNSRecursive nsto net2 stack None hostname recordtype hops
                 (Some (ss[i := (ss ! i)\<lparr>alive := False\<rparr>])))"
    using assms(1) dn
    by (cases m) (auto simp: conn stp_def stop_def chosen_def split: option.splits)
  from eq d s show ?thesis by blast
qed

lemma lookup_stream_shape:
  assumes "chosen server0 servers srv entry" and "hops \<noteq> 10"
    and "build_query hostname recordtype = Inr query"
  shows "\<exists>dat stp.
     queryDNSRecursive nsto (Stream chunks status net1 net2) stack server0 hostname recordtype hops
       servers =
       (Query srv entry hops (server_hostname srv) (server_port srv) query # dat @ fst stp, snd stp) \<and>
     (dat = [] \<or> (\<exists>ev. dat = [ev] \<and> \<not> is_Query ev) \<or>
      (\<exists>ns. dat = fst (queryDNSRecursive nsto net1 stack (Some ns) hostname recordtype (hops + 1) None))) \<and>
     (stp = ([], servers) \<or> (\<exists>ev. stp = ([ev], servers) \<and> \<not> is_Query ev) \<or>
      (\<exists>ss i. servers = Some ss \<and> entry = Some i \<and> next_alive 0 ss = Some i \<and>
         stp = queryDNSRecursive nsto net2 stack None hostname recordtype hops
                 (Some (ss[i := (ss ! i)\<lparr>alive := False\<rparr>]))))"
proof -
  from lookup_stream [OF assms, of nsto chunks status net1 net2 stack] obtain dat stp where
    eq: "queryDNSRecursive nsto (Stream chunks status net1 net2) stack server0 hostname recordtype
           hops servers =
         (Query srv entry hops (server_hostname srv) (server_port srv) query # dat @ fst stp, snd stp)"
    and d: "fst (connection chunks status) = None \<and> dat = [] \<or>
      (\<exists>msg e. fst (connection chunks status) = Some msg \<and>
           DNS_getRDData stack msg srv = Inl e \<and> dat = [Uncaught e]) \<or>
      (\<exists>msg r. fst (connection chunks status) = Some msg \<and>
           DNS_getRDData stack msg srv = Inr (Deliver r) \<and> dat = [Callback (Some r) None]) \<or>
      (\<exists>msg. fst (connection chunks status) = Some msg \<and>
           DNS_getRDData stack msg srv = Inr NoAnswer \<and> dat = [Callback None None]) \<or>
      (\<exists>msg ns. fst (connection chunks status) = Some msg \<and>
           DNS_getRDData stack msg srv = Inr (Recurse ns) \<and>
           dat = fst (queryDNSRecursive nsto net1 stack (Some ns) hostname recordtype (hops + 1) None))"
    and s: "status = 0 \<and> fst (connection chunks status) \<noteq> None \<and> stp = ([], servers) \<or>
      status = 0 \<and> fst (connection chunks status) = None \<and>
        (stp = ([], servers) \<or> stp = ([Callback None (Some (INCOMPLETE_RESPONSE srv))], servers)) \<or>
      status \<noteq> 0 \<and> servers = None \<and> entry = None \<and>
        stp = ([Callback None (Some (status_error nsto status srv))], servers) \<or>
      (\<exists>ss i. status \<noteq> 0 \<and> servers = Some ss \<and> entry = Some i \<and> next_alive 0 ss = Some i \<and>
         stp = queryDNSRecursive nsto net2 stack None hostname recordtype hops
                 (Some (ss[i := (ss ! i)\<lparr>alive := False\<rparr>])))"
    by blast
  have d': "dat = [] \<or> (\<exists>ev. dat = [ev] \<and> \<not> is_Query ev) \<or>
      (\<exists>ns. dat = fst (queryDNSRecursive nsto net1 stack (Some ns) hostname recordtype (hops + 1) None))"
    using d by auto
  have s': "stp = ([], servers) \<or> (\<exists>ev. stp = ([ev], servers) \<and> \<not> is_Query ev) \<or>
      (\<exists>ss i. servers = Some ss \<and> entry = Some i \<and> next_alive 0 ss = Some i \<and>
         stp = queryDNSRecursive nsto net2 stack None hostname recordtype hops
                 (Some (ss[i := (ss ! i)\<lparr>alive := False\<rparr>])))"
    using s by auto
  from eq d' s' show ?thesis by blast
qed



subsection \<open>The first event and the entries queried\<close>



lemma pool_first_event:
  assumes "queryDNSRecursive nsto net stack server0 hostname recordtype hops (Some ss) = (evs, servers')"
  shows "evs \<noteq> [] \<and> (case hd evs of
            Query srv entry h _ _ _ \<Rightarrow> entry = next_alive 0 ss \<and> entry \<noteq> None \<and> h = hops
          | Callback res err \<Rightarrow> res = None \<and> (err = Some NoServerAlive \<or> err = Some TOO_MANY_HOPS) \<and> evs = [hd evs]
          | Uncaught e \<Rightarrow> evs = [hd evs])"
proof (cases "next_alive 0 ss")
  case None
  with assms show ?thesis
    by (auto simp: queryDNSRecursive.simps [of _ net _ _ _ _ _ "Some ss"])
next
  case (Some i)
  with assms show ?thesis
    by (auto simp: queryDNSRecursive.simps [of _ net _ _ _ _ _ "Some ss"] Let_def
             split: sum.splits if_splits net.splits prod.splits)
qed

lemma next_alive_Some:
  "next_alive k ss = Some i \<Longrightarrow> k \<le> i \<and> i - k < length ss \<and> alive (ss ! (i - k))"
proof (induction ss arbitrary: k)
  case Nil
  then show ?case by simp
next
  case (Cons s ss)
  show ?case
  proof (cases "alive s")
    case True
    with Cons.prems show ?thesis by simp
  next
    case False
    with Cons.prems have "next_alive (Suc k) ss = Some i" by simp
    from Cons.IH [OF this] have "Suc k \<le> i" "i - Suc k < length ss" "alive (ss ! (i - Suc k))"
      by simp_all
    moreover have "i - k = Suc (i - Suc k)" using \<open>Suc k \<le> i\<close> by simp
    ultimately show ?thesis by simp
  qed
qed

lemma next_alive_0: "next_alive 0 ss = Some i \<Longrightarrow> i < length ss \<and> alive (ss ! i)"
  using next_alive_Some [of 0 ss i] by simp

lemma next_alive_lt: "next_alive 0 ss = Some i \<Longrightarrow> i < length ss"
  by (simp add: next_alive_0)

lemma next_alive_alive: "next_alive 0 ss = Some i \<Longrightarrow> alive (ss ! i)"
  by (simp add: next_alive_0)

lemma alive_after_update:
  "j < length ss \<Longrightarrow> alive (ss[i := (ss ! i)\<lparr>alive := False\<rparr>] ! j) = (alive (ss ! j) \<and> j \<noteq> i)"
  by (cases "i = j") auto

lemma chosen_entry:
  "chosen server0 servers srv (Some j) \<Longrightarrow>
   \<exists>ss. servers = Some ss \<and> j < length ss \<and> alive (ss ! j) \<and> next_alive 0 ss = Some j"
  by (auto simp: chosen_def next_alive_lt next_alive_alive split: option.splits)

lemma queried_entries_alive:
  "e \<in> set (fst (queryDNSRecursive nsto net stack server0 hostname recordtype hops servers)) \<Longrightarrow>
   is_Query e \<Longrightarrow> q_entry e = Some j \<Longrightarrow>
   \<exists>ss. servers = Some ss \<and> j < length ss \<and> alive (ss ! j)"
proof (induction net arbitrary: server0 hops servers)
  case Silent
  from lookup_cases [of nsto Silent stack server0 hostname recordtype hops servers] Silent
  show ?case
    by (auto simp: lookup_silent dest!: chosen_entry)
next
  case SocketException
  from lookup_cases [of nsto SocketException stack server0 hostname recordtype hops servers] SocketException
  show ?case
    by (auto simp: lookup_silent dest!: chosen_entry)
next
  case (Stream chunks status net1 net2)
  from lookup_cases [of nsto "Stream chunks status net1 net2" stack server0 hostname recordtype hops servers]
  show ?case
  proof (elim disjE exE conjE)
    fix ev
    assume "\<not> is_Query ev"
      "queryDNSRecursive nsto (Stream chunks status net1 net2) stack server0 hostname recordtype hops
         servers = ([ev], servers)"
    with Stream.prems show ?thesis by auto
  next
    fix srv entry query
    assume ch: "chosen server0 servers srv entry" and hp: "hops \<noteq> 10"
      and bq: "build_query hostname recordtype = Inr query"
    from lookup_stream_shape [OF ch hp bq, of nsto chunks status net1 net2 stack] obtain dat stp where
      eq: "queryDNSRecursive nsto (Stream chunks status net1 net2) stack server0 hostname recordtype
             hops servers =
           (Query srv entry hops (server_hostname srv) (server_port srv) query # dat @ fst stp, snd stp)"
      and d: "dat = [] \<or> (\<exists>ev. dat = [ev] \<and> \<not> is_Query ev) \<or>
           (\<exists>ns. dat = fst (queryDNSRecursive nsto net1 stack (Some ns) hostname recordtype (hops + 1) None))"
      and s: "stp = ([], servers) \<or> (\<exists>ev. stp = ([ev], servers) \<and> \<not> is_Query ev) \<or>
           (\<exists>ss i. servers = Some ss \<and> entry = Some i \<and> next_alive 0 ss = Some i \<and>
              stp = queryDNSRecursive nsto net2 stack None hostname recordtype hops
                      (Some (ss[i := (ss ! i)\<lparr>alive := False\<rparr>])))"
      by blast
    from Stream.prems(1) eq have
      "e = Query srv entry hops (server_hostname srv) (server_port srv) query \<or> e \<in> set dat \<or>
       e \<in> set (fst stp)"
      by auto
    then show ?thesis
    proof (elim disjE)
      assume "e = Query srv entry hops (server_hostname srv) (server_port srv) query"
      with Stream.prems(3) ch show ?thesis by (auto dest: chosen_entry)
    next
      assume "e \<in> set dat"
      with d Stream.prems(2,3) Stream.IH(1) show ?thesis by fastforce
    next
      assume m: "e \<in> set (fst stp)"
      from s show ?thesis
      proof (elim disjE exE conjE)
        assume "stp = ([], servers)"
        with m show ?thesis by simp
      next
        fix ev assume "stp = ([ev], servers)" "\<not> is_Query ev"
        with m Stream.prems(2) show ?thesis by simp
      next
        fix ss i
        assume sv: "servers = Some ss" and
          st: "stp = queryDNSRecursive nsto net2 stack None hostname recordtype hops
                      (Some (ss[i := (ss ! i)\<lparr>alive := False\<rparr>]))"
        from Stream.IH(2) [OF m [unfolded st] Stream.prems(2,3)] sv
        show ?thesis by (auto simp: alive_after_update)
      qed
    qed
  qed
qed

subsection \<open>Incomplete responses\<close>



subsection \<open>Invalid responses\<close>

text \<open>Every invalid response makes \<open>DNS_getRDData\<close> throw, whatever the server.\<close>

lemma S_unsupported_invalid: "invalid_response 5 S_unsupported"
  by code_simp

lemma answers_unrecognized:
  "list_ex (\<lambda>r. \<not> rec_recognized r) (answer_records stack n str idx) \<Longrightarrow>
   getRDData_answers stack n str idx results =
     Inl (Throw ''Record type is not one that this library can understand.'')"
proof (induction n arbitrary: idx results)
  case 0
  then show ?case by simp
next
  case (Suc n)
  then show ?case
    by (cases "DNS_readRec stack str idx") (auto split: if_splits)
qed

lemma getRDData_invalid:
  assumes "invalid_response stack str"
  shows "\<exists>msg \<in> set invalid_response_messages. \<forall>srv. DNS_getRDData stack str srv = Inl (Throw msg)"
proof (cases "DNS_strToWord (substr str (Num 4) (Num 2)) \<noteq> Num 1 \<or>
      js_gt (DNS_strToWord (substr str (Num 6) (Num 2))) (Num 128) \<or>
      js_gt (DNS_strToWord (substr str (Num 8) (Num 2))) (Num 128) \<or>
      js_gt (DNS_strToWord (substr str (Num 10) (Num 2))) (Num 128)")
  case True
  then show ?thesis
    by (auto simp: DNS_getRDData_def Let_def invalid_response_messages_def)
next
  case False
  with assms have ex: "list_ex (\<lambda>r. \<not> rec_recognized r) (answer_section stack str)"
    by (auto simp: invalid_response_def)
  then obtain d ty cls idx1 where q: "getRDData_question stack str (Num 12) = Some (d, ty, cls, idx1)"
    by (cases "getRDData_question stack str (Num 12)") (auto simp: answer_section_def)
  from ex q have "getRDData_answers stack (iterations (DNS_strToWord (substr str (Num 6) (Num 2)))) str
                    idx1 [] = Inl (Throw ''Record type is not one that this library can understand.'')"
    by (intro answers_unrecognized) (simp add: answer_section_def)
  with False q show ?thesis
    by (simp add: DNS_getRDData_def Let_def invalid_response_messages_def)
qed

text \<open>
  C8: the code does not do what the claim says. The response \<open>S_unsupported\<close> has a record
  of type 28 in its answer section, and \<open>DNS_getRDData\<close> throws inside the stream
  listener: the exception is not caught and the callback is not called with an error for
  an invalid response. What follows depends on the status with which the stream stops.
  With status 0 nothing follows, and the caller is never called. With another status
  (2147500037 here) \<open>finished\<close> treats the stop as a failed connection: with the pool, the
  first server is marked not alive and the second is queried, and its answer is delivered
  as the result of the lookup; for a server designated by a referral the callback gets
  \<open>SERVER_ERROR\<close>.
\<close>

theorem C8_exception_not_surfaced:
  "queryDNS S_net_timeout (Stream [framed S_unsupported] 0 Silent Silent) 5 S_pool ''a'' ''A'' =
     ([S_query ''8.8.8.8'' (Some 0) 0,
       Uncaught (Throw ''Record type is not one that this library can understand.'')],
      Some S_pool) \<and>
   queryDNS S_net_timeout
     (Stream [framed S_unsupported] 2147500037 Silent (Stream [framed S_answer] 0 Silent Silent))
     5 S_pool ''a'' ''A'' =
     ([S_query ''8.8.8.8'' (Some 0) 0,
       Uncaught (Throw ''Record type is not one that this library can understand.''),
       S_query ''8.8.4.4'' (Some 1) 0, Callback (Some [RD_string ''1.2.3.4'']) None],
      Some S_pool_failed) \<and>
   queryDNSRecursive S_net_timeout (Stream [framed S_unsupported] 2147500037 Silent Silent) 5
      (Some ''ns1'') ''a'' ''A'' 1 None =
     ([S_query ''ns1'' None 1,
       Uncaught (Throw ''Record type is not one that this library can understand.''),
       Callback None (Some (SERVER_ERROR ''ns1''))], None)"
  by (simp add: S_eval S_net_timeout_def)

subsection \<open>Transport failures\<close>




subsection \<open>Failover\<close>

text \<open>
  C6: when a query to a pool entry has been sent and its connection stops with a status
  other than 0 before a response is complete, the entry queried is the first alive entry
  \<open>i\<close> of the pool, and the rest of the lookup is \<open>queryDNSRecursive\<close> with the same
  \<open>hops\<close> on the pool in which entry \<open>i\<close> is not alive; if a query follows, it has the
  same \<open>hops\<close> and goes to the first alive entry of that pool; and no later query of the
  lookup goes to entry \<open>i\<close>.
\<close>

theorem C6_failover:
  assumes "queryDNSRecursive nsto (Stream chunks status net1 net2) stack server0 hostname recordtype
             hops (Some ss) = (q # evs, servers')"
    and "is_Query q"
    and "connection chunks status = (None, Failed st)"
  shows "\<exists>i. next_alive 0 ss = Some i \<and> q_entry q = Some i \<and> q_server q = server (ss ! i) \<and>
           (evs, servers') =
             queryDNSRecursive nsto net2 stack None hostname recordtype hops
               (Some (ss[i := (ss ! i)\<lparr>alive := False\<rparr>])) \<and>
           evs \<noteq> [] \<and>
           (is_Query (hd evs) \<longrightarrow>
              q_hops (hd evs) = hops \<and>
              q_entry (hd evs) = next_alive 0 (ss[i := (ss ! i)\<lparr>alive := False\<rparr>])) \<and>
           (\<forall>e \<in> set evs. is_Query e \<longrightarrow> q_entry e \<noteq> Some i)"
proof -
  from assms(1,2) obtain i where i: "next_alive 0 ss = Some i" "q_entry q = Some i"
      "q_server q = server (ss ! i)"
    and r: "queryDNSRecursive nsto net2 stack None hostname recordtype hops
              (Some (ss[i := (ss ! i)\<lparr>alive := False\<rparr>])) = (evs, servers')"
    by (auto simp: queryDNSRecursive.simps [of _ "Stream chunks status net1 net2"] assms(3) Let_def
             split: option.splits sum.splits if_splits)
  have first: "evs \<noteq> [] \<and> (is_Query (hd evs) \<longrightarrow>
              q_hops (hd evs) = hops \<and>
              q_entry (hd evs) = next_alive 0 (ss[i := (ss ! i)\<lparr>alive := False\<rparr>]))"
    using pool_first_event [OF r] by (cases "hd evs") auto
  have never: "q_entry e \<noteq> Some i" if "e \<in> set evs" "is_Query e" for e
  proof
    assume "q_entry e = Some i"
    with that r have "\<exists>ss'. Some (ss[i := (ss ! i)\<lparr>alive := False\<rparr>]) = Some ss' \<and>
        i < length ss' \<and> alive (ss' ! i)"
      by (intro queried_entries_alive [of e nsto net2 stack None hostname recordtype hops]) simp_all
    then show False by (auto simp: alive_after_update)
  qed
  from i r first never show ?thesis by auto
qed

theorem C6_failover_witness:
  "queryDNSRecursive S_net_timeout
      (Stream [] 2152398861 Silent (Stream [framed S_answer] 0 Silent Silent)) 5 None
      ''a'' ''A'' 0 (Some S_pool) =
     (S_query ''8.8.8.8'' (Some 0) 0 #
        [S_query ''8.8.4.4'' (Some 1) 0, Callback (Some [RD_string ''1.2.3.4'']) None],
      Some S_pool_failed) \<and>
   is_Query (S_query ''8.8.8.8'' (Some 0) 0) \<and>
   connection [] 2152398861 = (None, Failed 2152398861) \<and>
   next_alive 0 S_pool = Some 0 \<and>
   S_pool[0 := (S_pool ! 0)\<lparr>alive := False\<rparr>] = S_pool_failed \<and>
   ([S_query ''8.8.4.4'' (Some 1) 0, Callback (Some [RD_string ''1.2.3.4'']) None], Some S_pool_failed) =
     queryDNSRecursive S_net_timeout (Stream [framed S_answer] 0 Silent Silent) 5 None ''a'' ''A'' 0
       (Some S_pool_failed)"
proof -
  have h1: "queryDNSRecursive S_net_timeout
      (Stream [] 2152398861 Silent (Stream [framed S_answer] 0 Silent Silent))
      5 None ''a'' ''A'' 0 (Some S_pool) =
     (S_query ''8.8.8.8'' (Some 0) 0 #
        [S_query ''8.8.4.4'' (Some 1) 0, Callback (Some [RD_string ''1.2.3.4'']) None],
      Some S_pool_failed)"
    by (simp add: S_eval)
  have h2: "is_Query (S_query ''8.8.8.8'' (Some 0) 0)"
    by (simp add: S_query_def)
  have h3: "next_alive 0 S_pool = Some 0" "S_pool[0 := (S_pool ! 0)\<lparr>alive := False\<rparr>] = S_pool_failed"
    by (simp_all add: S_pool_def S_pool_failed_def)
  show ?thesis
    using C6_failover [OF h1 h2 S_conn(1)] h1 h2 h3 S_conn(1) by auto
qed

subsection \<open>The hop counter\<close>










end
